theory Spec2Isabelle
  imports Main "HOL-Library.Sublist"
begin

section \<open>Data model\<close>

text \<open>
  The worker of \<^verbatim>\<open>src/services/bot.ts\<close> keeps three module variables (\<^verbatim>\<open>browser\<close>,
  \<^verbatim>\<open>page\<close>, \<^verbatim>\<open>lastCheckTime\<close>) and talks to four outside parties: the portal (through
  the browser and through one HTTP request), the document store (the \<^verbatim>\<open>Referral\<close> and
  \<^verbatim>\<open>Notification\<close> collections), the mail transport and the SMS transport.

  The embedding passes one \<open>world\<close> value through every function: the module variables,
  the two collections, the wall clock, and the list of calls made to the outside (the
  \<open>trace\<close>). What the outside answers in a cycle is an input, the record \<open>env\<close>.
  A \<^verbatim>\<open>Date\<close> is its number of milliseconds since the epoch, an \<open>int\<close>; an invalid
  date (\<^verbatim>\<open>NaN\<close>) is \<open>None\<close>.
\<close>

type_synonym handle = nat

text \<open>One element of \<^verbatim>\<open>ReferralResponse.referrals\<close> (bot.ts, lines 26 to 39).\<close>

record referral =
  memberName :: string
  memberID :: string
  serviceName :: string
  regionName :: string
  county :: string
  plan :: string
  preferredStartDate :: string
  status :: string
  requestOn :: string

text \<open>\<^verbatim>\<open>MemberData\<close> (bot.ts, lines 42 to 49): what the page scrape yields; \<^verbatim>\<open>?\<close> fields are options.\<close>

record MemberData =
  md_memberName :: string
  md_memberID :: string
  md_serviceName :: "string option"
  md_status :: "string option"
  md_requestDate :: "string option"
  md_additionalInfo :: "string option"

text \<open>
  A stored \<^verbatim>\<open>Referral\<close> document (models/referrals.ts): the fields either path writes,
  \<^verbatim>\<open>_id\<close>, and the two defaulted fields. The page path leaves region, county, plan and
  preferred start date unset.
\<close>

record referral_doc =
  doc_id :: nat
  doc_memberID :: string
  doc_memberName :: string
  doc_serviceName :: string
  doc_regionName :: "string option"
  doc_county :: "string option"
  doc_plan :: "string option"
  doc_preferredStartDate :: "string option"
  doc_status :: string
  doc_requestOn :: string
  isNotified :: bool
  createdAt :: int

text \<open>A stored \<^verbatim>\<open>Notification\<close> document (models/notification.ts).\<close>

record notification_doc =
  notif_id :: nat
  referralId :: nat
  notif_memberName :: string
  notif_memberID :: string
  message :: string
  isRead :: bool
  notif_createdAt :: int

text \<open>Every call that leaves the process, and the \<^verbatim>\<open>console.error\<close> and \<^verbatim>\<open>console.warn\<close> lines.\<close>

datatype event =
    Launch
  | NewPage
  | PortalLogin
  | BrowserClose
  | AxiosPost string string
  | FindOneByRequestOn string string
  | FindOneByName string string
  | ReferralCreate referral_doc
  | NotificationCreate notification_doc
  | ReferralSave nat
  | SendMail string string string string
  | MessagesCreate string string string
  | ConsoleError string
  | ConsoleWarn string

text \<open>
  \<open>AxiosPost cookie xsrf\<close> is the request of lines 1279 to 1299 with its \<^verbatim>\<open>Cookie\<close> and
  \<^verbatim>\<open>X-XSRF-TOKEN\<close> headers; \<open>SendMail from to subject text\<close> is \<^verbatim>\<open>transporter.sendMail\<close>;
  \<open>MessagesCreate body from to\<close> is \<^verbatim>\<open>client.messages.create\<close>; \<open>ReferralSave i\<close> is
  \<^verbatim>\<open>savedReferral.save()\<close> after \<^verbatim>\<open>isNotified = true\<close>.
\<close>

datatype error =
    SetupError
  | PageNotInitialized
  | LoginError
  | LoginFailed
  | AxiosError "nat option"
  | ValidationError
  | MailError
  | ClientError
  | SmsError

datatype fetch_result =
    HttpError nat
  | NetworkError
  | Response "referral list"

text \<open>
  The process environment and the two \<^verbatim>\<open>Date\<close> functions of the platform the code calls:
  \<open>Date_parse s\<close> is the time value of \<^verbatim>\<open>new Date(s)\<close>, \<open>toISOString\<close> prints a time.
\<close>

record config =
  EMAIL_USER :: "string option"
  EMAIL_PASS :: "string option"
  EMAIL_FROM :: "string option"
  EMAIL_RECIPIENTS :: "string option"
  TWILIO_SID :: "string option"
  TWILIO_AUTH_TOKEN :: "string option"
  TWILIO_PHONE_NUMBER :: "string option"
  SMS_RECIPIENTS :: "string option"
  Date_parse :: "string \<Rightarrow> int option"
  toISOString :: "int \<Rightarrow> string"

text \<open>
  What the outside answers during one cycle. \<open>sendMail_ok n\<close> is whether the \<open>n\<close>-th
  call of the mail transport (counted over the whole trace) delivers, \<open>create_ok n\<close> the
  same for the SMS transport. The three durations are what the clock advances by during
  the login, during the HTTP request and during one store lookup.
\<close>

record env =
  launch :: "handle option"
  newPage :: "handle option"
  portal_login :: bool
  extracted :: "MemberData list option"
  cookie_jar :: "(string \<times> string) list"
  axios_post :: fetch_result
  sendMail_ok :: "nat \<Rightarrow> bool"
  create_ok :: "nat \<Rightarrow> bool"
  login_ms :: nat
  fetch_ms :: nat
  lookup_ms :: nat

record world =
  browser :: "handle option"
  page :: "handle option"
  lastCheckTime :: int
  referrals :: "referral_doc list"
  notifications :: "notification_doc list"
  next_id :: nat
  clock :: int
  trace :: "event list"

definition emit :: "event \<Rightarrow> world \<Rightarrow> world" where
  "emit e w = w\<lparr>trace := trace w @ [e]\<rparr>"

fun is_SendMail :: "event \<Rightarrow> bool" where
  "is_SendMail (SendMail f t s b) = True"
| "is_SendMail e = False"

fun is_MessagesCreate :: "event \<Rightarrow> bool" where
  "is_MessagesCreate (MessagesCreate b f t) = True"
| "is_MessagesCreate e = False"

definition mail_calls :: "event list \<Rightarrow> nat" where
  "mail_calls tr = length (filter is_SendMail tr)"

definition sms_calls :: "event list \<Rightarrow> nat" where
  "sms_calls tr = length (filter is_MessagesCreate tr)"

section \<open>Strings\<close>

text \<open>\<^verbatim>\<open>String.prototype.split(",")\<close>: the empty string splits into one empty piece.\<close>

fun split_comma :: "string \<Rightarrow> string list" where
  "split_comma [] = [[]]"
| "split_comma (c # cs) =
     (if c = CHR '','' then [] # split_comma cs
      else (case split_comma cs of [] \<Rightarrow> [[c]] | p # ps \<Rightarrow> (c # p) # ps))"

text \<open>
  A string is the list of the bytes of its UTF-8 form. \<^verbatim>\<open>String.prototype.trim\<close> strips
  white space and line terminators from both ends: the six one-byte characters, U+00A0
  (two bytes), and U+1680, U+2000 to U+200A, U+2028, U+2029, U+202F, U+205F, U+3000 and
  U+FEFF (three bytes each).
\<close>

definition is_space :: "char \<Rightarrow> bool" where
  "is_space c = (c \<in> {CHR '' '', CHR 0x09, CHR 0x0A, CHR 0x0B, CHR 0x0C, CHR 0x0D})"

definition is_space2 :: "char \<Rightarrow> char \<Rightarrow> bool" where
  "is_space2 a b = (a = CHR 0xC2 \<and> b = CHR 0xA0)"

definition is_space3 :: "char \<Rightarrow> char \<Rightarrow> char \<Rightarrow> bool" where
  "is_space3 a b c =
     ([a, b, c] \<in> {[CHR 0xE1, CHR 0x9A, CHR 0x80],
        [CHR 0xE2, CHR 0x80, CHR 0x80], [CHR 0xE2, CHR 0x80, CHR 0x81],
        [CHR 0xE2, CHR 0x80, CHR 0x82], [CHR 0xE2, CHR 0x80, CHR 0x83],
        [CHR 0xE2, CHR 0x80, CHR 0x84], [CHR 0xE2, CHR 0x80, CHR 0x85],
        [CHR 0xE2, CHR 0x80, CHR 0x86], [CHR 0xE2, CHR 0x80, CHR 0x87],
        [CHR 0xE2, CHR 0x80, CHR 0x88], [CHR 0xE2, CHR 0x80, CHR 0x89],
        [CHR 0xE2, CHR 0x80, CHR 0x8A], [CHR 0xE2, CHR 0x80, CHR 0xA8],
        [CHR 0xE2, CHR 0x80, CHR 0xA9], [CHR 0xE2, CHR 0x80, CHR 0xAF],
        [CHR 0xE2, CHR 0x81, CHR 0x9F], [CHR 0xE3, CHR 0x80, CHR 0x80],
        [CHR 0xEF, CHR 0xBB, CHR 0xBF]})"

fun trimStart :: "string \<Rightarrow> string" where
  "trimStart (a # b # c # s) =
     (if is_space a then trimStart (b # c # s)
      else if is_space2 a b then trimStart (c # s)
      else if is_space3 a b c then trimStart s
      else a # b # c # s)"
| "trimStart [a, b] =
     (if is_space a then trimStart [b] else if is_space2 a b then [] else [a, b])"
| "trimStart [a] = (if is_space a then [] else [a])"
| "trimStart [] = []"

text \<open>The same from the end, on the reversed string (so the bytes of a character come last first).\<close>

fun trimEnd_rev :: "string \<Rightarrow> string" where
  "trimEnd_rev (c # b # a # s) =
     (if is_space c then trimEnd_rev (b # a # s)
      else if is_space2 b c then trimEnd_rev (a # s)
      else if is_space3 a b c then trimEnd_rev s
      else c # b # a # s)"
| "trimEnd_rev [b, a] =
     (if is_space b then trimEnd_rev [a] else if is_space2 a b then [] else [b, a])"
| "trimEnd_rev [a] = (if is_space a then [] else [a])"
| "trimEnd_rev [] = []"

definition trim :: "string \<Rightarrow> string" where
  "trim s = rev (trimEnd_rev (rev (trimStart s)))"

text \<open>\<^verbatim>\<open>Array.prototype.join\<close>.\<close>

fun join :: "string \<Rightarrow> string list \<Rightarrow> string" where
  "join sep [] = []"
| "join sep [x] = x"
| "join sep (x # y # ys) = x @ sep @ join sep (y # ys)"

text \<open>The decimal digits of a number, for \<^verbatim>\<open>${index + 1}\<close>.\<close>

fun show_nat :: "nat \<Rightarrow> string" where
  "show_nat n =
     (if n < 10 then [char_of (48 + n)]
      else show_nat (n div 10) @ [char_of (48 + n mod 10)])"

declare show_nat.simps [simp del]

definition nl :: string where
  "nl = [CHR 0x0A]"

text \<open>\<^verbatim>\<open>x || d\<close> on an optional string: an absent and an empty string are both falsy.\<close>

definition or_else :: "string option \<Rightarrow> string \<Rightarrow> string" where
  "or_else x d = (case x of None \<Rightarrow> d | Some s \<Rightarrow> if s = [] then d else s)"

definition falsy :: "string option \<Rightarrow> bool" where
  "falsy x = (case x of None \<Rightarrow> True | Some s \<Rightarrow> s = [])"

section \<open>The anti-forgery token (bot.ts, lines 1401 to 1404)\<close>

text \<open>
  \<^verbatim>\<open>cookies.match(/XSRF-TOKEN=([^;]+)/)\<close>: the leftmost position where the text
  \<^verbatim>\<open>XSRF-TOKEN=\<close> is followed by at least one character other than \<^verbatim>\<open>;\<close>; the group
  is the longest run of such characters. \<open>None\<close> is the \<^verbatim>\<open>null\<close> of no match.
\<close>

fun xsrf_match :: "string \<Rightarrow> string option" where
  "xsrf_match [] = None"
| "xsrf_match (c # cs) =
     (if take 11 (c # cs) = ''XSRF-TOKEN=''
         \<and> takeWhile (\<lambda>x. x \<noteq> CHR '';'') (drop 11 (c # cs)) \<noteq> []
      then Some (takeWhile (\<lambda>x. x \<noteq> CHR '';'') (drop 11 (c # cs)))
      else xsrf_match cs)"

definition extractXsrfToken :: "string \<Rightarrow> string" where
  "extractXsrfToken cookies = (case xsrf_match cookies of Some m \<Rightarrow> m | None \<Rightarrow> [])"

text \<open>\<^verbatim>\<open>getSessionCookies\<close> (lines 74 to 81): the jar of the page as one header value.\<close>

definition cookie_string :: "(string \<times> string) list \<Rightarrow> string" where
  "cookie_string jar = join ''; '' (map (\<lambda>(n, v). n @ ''='' @ v) jar)"

definition getSessionCookies :: "env \<Rightarrow> world \<Rightarrow> error + string" where
  "getSessionCookies ev w =
     (case page w of None \<Rightarrow> Inl PageNotInitialized
      | Some p \<Rightarrow> Inr (cookie_string (cookie_jar ev)))"

section \<open>The two channels\<close>

text \<open>
  \<^verbatim>\<open>sendEmail\<close> (email.ts, lines 49 to 75). The recipients are read at each call; the
  credentials are read once, when the transporter is built, and \<^verbatim>\<open>sendEmail\<close> does not
  look at them. A failed transport is logged and thrown again.
\<close>

definition email_recipients :: "config \<Rightarrow> string list" where
  "email_recipients cfg =
     (case EMAIL_RECIPIENTS cfg of None \<Rightarrow> [] | Some s \<Rightarrow> map trim (split_comma s))"

definition sendEmail :: "config \<Rightarrow> env \<Rightarrow> string \<Rightarrow> string \<Rightarrow> world \<Rightarrow> error option \<times> world" where
  "sendEmail cfg ev subject text w =
     (let recipients = email_recipients cfg in
      if length recipients = 0
      then (None, emit (ConsoleWarn ''No email recipients configured in environment variables'') w)
      else
        let w1 = emit (SendMail (or_else (EMAIL_FROM cfg) ''adeoyeoluwaferanmi@gmail.com'')
                         (join '','' recipients) subject text) w
        in if sendMail_ok ev (mail_calls (trace w)) then (None, w1)
           else (Some MailError, emit (ConsoleError ''Error sending email notification:'') w1))"

text \<open>
  \<^verbatim>\<open>sendSMS\<close> (sms.ts, lines 11 to 48). Credentials and recipients are read when the
  module loads. After the two guards the client is built (line 28), inside the \<^verbatim>\<open>try\<close>:
  \<^verbatim>\<open>twilio(accountSid, authToken)\<close> throws when the account id does not start with
  \<^verbatim>\<open>AC\<close>. The loop stops at the first recipient whose message is refused. Either
  failure is logged and thrown again.
\<close>

definition twilio :: "string \<Rightarrow> string \<Rightarrow> error option" where
  "twilio accountSid authToken = (if take 2 accountSid = ''AC'' then None else Some ClientError)"

definition toNumbers :: "config \<Rightarrow> string list" where
  "toNumbers cfg = (case SMS_RECIPIENTS cfg of None \<Rightarrow> [] | Some s \<Rightarrow> split_comma s)"

fun sms_each :: "env \<Rightarrow> string \<Rightarrow> string \<Rightarrow> string list \<Rightarrow> world \<Rightarrow> error option \<times> world" where
  "sms_each ev body fromNumber [] w = (None, w)"
| "sms_each ev body fromNumber (toNumber # rest) w =
     (let w1 = emit (MessagesCreate body fromNumber (trim toNumber)) w
      in if create_ok ev (sms_calls (trace w)) then sms_each ev body fromNumber rest w1
         else (Some SmsError, w1))"

definition sendSMS :: "config \<Rightarrow> env \<Rightarrow> string \<Rightarrow> world \<Rightarrow> error option \<times> world" where
  "sendSMS cfg ev body w =
     (if falsy (TWILIO_SID cfg) \<or> falsy (TWILIO_AUTH_TOKEN cfg) \<or> falsy (TWILIO_PHONE_NUMBER cfg)
      then (None, emit (ConsoleWarn ''Twilio credentials not configured in environment variables'') w)
      else if length (toNumbers cfg) = 0
      then (None, emit (ConsoleWarn ''No SMS recipients configured in environment variables'') w)
      else
        (case twilio (or_else (TWILIO_SID cfg) []) (or_else (TWILIO_AUTH_TOKEN cfg) []) of
           Some e \<Rightarrow> (Some e, emit (ConsoleError ''Error sending SMS notification:'') w)
         | None \<Rightarrow>
             (case sms_each ev body (or_else (TWILIO_PHONE_NUMBER cfg) []) (toNumbers cfg) w of
                (None, w1) \<Rightarrow> (None, w1)
              | (Some e, w1) \<Rightarrow>
                  (Some e, emit (ConsoleError ''Error sending SMS notification:'') w1))))"

section \<open>The store\<close>

text \<open>
  \<^verbatim>\<open>Referral.findOne\<close> with a two-field filter returns the first stored document that
  agrees on both fields. The store operations are taken to answer (no connection
  failure); the one refusal modelled is the \<^verbatim>\<open>required: true\<close> validator of
  models/notification.ts, which rejects an absent or empty \<^verbatim>\<open>memberName\<close> or \<^verbatim>\<open>memberID\<close>.
\<close>

definition findOneByRequestOn :: "referral_doc list \<Rightarrow> string \<Rightarrow> string \<Rightarrow> referral_doc option" where
  "findOneByRequestOn ds mid ron = find (\<lambda>d. doc_memberID d = mid \<and> doc_requestOn d = ron) ds"

definition findOneByName :: "referral_doc list \<Rightarrow> string \<Rightarrow> string \<Rightarrow> referral_doc option" where
  "findOneByName ds mid nm = find (\<lambda>d. doc_memberID d = mid \<and> doc_memberName d = nm) ds"

definition mark_notified :: "nat \<Rightarrow> referral_doc list \<Rightarrow> referral_doc list" where
  "mark_notified i ds = map (\<lambda>d. if doc_id d = i then d\<lparr>isNotified := True\<rparr> else d) ds"

definition createReferral :: "referral_doc \<Rightarrow> world \<Rightarrow> world" where
  "createReferral d w =
     (emit (ReferralCreate d) w)\<lparr>referrals := referrals w @ [d], next_id := Suc (next_id w)\<rparr>"

definition createNotification :: "notification_doc \<Rightarrow> world \<Rightarrow> error option \<times> world" where
  "createNotification n w =
     (if notif_memberName n = [] \<or> notif_memberID n = [] \<or> message n = []
      then (Some ValidationError, w)
      else (None, (emit (NotificationCreate n) w)
                    \<lparr>notifications := notifications w @ [n], next_id := Suc (next_id w)\<rparr>))"

section \<open>The request path (bot.ts, lines 1256 to 1399)\<close>

definition api_doc :: "nat \<Rightarrow> int \<Rightarrow> referral \<Rightarrow> referral_doc" where
  "api_doc i now r =
     \<lparr>doc_id = i, doc_memberID = memberID r, doc_memberName = memberName r,
      doc_serviceName = serviceName r, doc_regionName = Some (regionName r),
      doc_county = Some (county r), doc_plan = Some (plan r),
      doc_preferredStartDate = Some (preferredStartDate r), doc_status = status r,
      doc_requestOn = requestOn r, isNotified = False, createdAt = now\<rparr>"

definition api_notification :: "nat \<Rightarrow> nat \<Rightarrow> int \<Rightarrow> referral \<Rightarrow> notification_doc" where
  "api_notification i rid now r =
     \<lparr>notif_id = i, referralId = rid, notif_memberName = memberName r,
      notif_memberID = memberID r,
      message = ''New referral for '' @ memberName r @ '' ('' @ serviceName r
                  @ '') received on '' @ requestOn r,
      isRead = False, notif_createdAt = now\<rparr>"

definition email_text :: "referral \<Rightarrow> string" where
  "email_text r =
     ''New referral received for '' @ memberName r @ '' (ID: '' @ memberID r @ '').'' @ nl @ nl
     @ ''Service: '' @ serviceName r @ nl
     @ ''Region: '' @ regionName r @ nl
     @ ''County: '' @ county r @ nl
     @ ''Plan: '' @ plan r @ nl
     @ ''Preferred Start Date: '' @ preferredStartDate r @ nl
     @ ''Status: '' @ status r"

definition sms_text :: "referral \<Rightarrow> string" where
  "sms_text r =
     ''New referral: '' @ memberName r @ '' ('' @ memberID r @ '') for '' @ serviceName r
     @ ''. Check dashboard for details.''"

text \<open>The body of the loop of lines 1316 to 1372, for one new referral.\<close>

definition processReferral :: "config \<Rightarrow> env \<Rightarrow> referral \<Rightarrow> world \<Rightarrow> error option \<times> world" where
  "processReferral cfg ev r w =
     (let w0 = (emit (FindOneByRequestOn (memberID r) (requestOn r)) w)
                 \<lparr>clock := clock w + int (lookup_ms ev)\<rparr>
      in case findOneByRequestOn (referrals w) (memberID r) (requestOn r) of
           Some existingReferral \<Rightarrow> (None, w0)
         | None \<Rightarrow>
             let savedReferral = api_doc (next_id w0) (clock w0) r;
                 w1 = createReferral savedReferral w0
             in case createNotification
                       (api_notification (next_id w1) (doc_id savedReferral) (clock w1) r) w1 of
                  (Some e, w2) \<Rightarrow> (Some e, w2)
                | (None, w2) \<Rightarrow>
                    (case sendEmail cfg ev ''New Referral Notification'' (email_text r) w2 of
                       (Some e, w3) \<Rightarrow> (Some e, w3)
                     | (None, w3) \<Rightarrow>
                         (case sendSMS cfg ev (sms_text r) w3 of
                            (Some e, w4) \<Rightarrow> (Some e, w4)
                          | (None, w4) \<Rightarrow>
                              (None, (emit (ReferralSave (doc_id savedReferral)) w4)
                                       \<lparr>referrals :=
                                          mark_notified (doc_id savedReferral) (referrals w4)\<rparr>))))"

fun processNewReferrals :: "config \<Rightarrow> env \<Rightarrow> referral list \<Rightarrow> world \<Rightarrow> error option \<times> world" where
  "processNewReferrals cfg ev [] w = (None, w)"
| "processNewReferrals cfg ev (r # rs) w =
     (case processReferral cfg ev r w of
        (Some e, w1) \<Rightarrow> (Some e, w1)
      | (None, w1) \<Rightarrow> processNewReferrals cfg ev rs w1)"

text \<open>
  The filter of lines 1307 to 1310: \<^verbatim>\<open>new Date(referral.requestOn) > lastCheckTime\<close>.
  An unparsable \<^verbatim>\<open>requestOn\<close> gives an invalid date, which compares false.
\<close>

definition newReferrals :: "config \<Rightarrow> int \<Rightarrow> referral list \<Rightarrow> referral list" where
  "newReferrals cfg lct rs =
     filter (\<lambda>r. case Date_parse cfg (requestOn r) of None \<Rightarrow> False | Some t \<Rightarrow> lct < t) rs"

section \<open>The page path (bot.ts, lines 1023 to 1253)\<close>

fun member_lines :: "nat \<Rightarrow> MemberData list \<Rightarrow> string" where
  "member_lines i [] = []"
| "member_lines i (m # ms) =
     ''Member '' @ show_nat (i + 1) @ '':'' @ nl
     @ ''Name: '' @ md_memberName m @ nl
     @ ''ID: '' @ md_memberID m @ nl
     @ (if falsy (md_serviceName m) then [] else ''Service: '' @ or_else (md_serviceName m) [] @ nl)
     @ (if falsy (md_status m) then [] else ''Status: '' @ or_else (md_status m) [] @ nl)
     @ (if falsy (md_requestDate m) then [] else ''Request Date: '' @ or_else (md_requestDate m) [] @ nl)
     @ nl
     @ member_lines (Suc i) ms"

definition sendMemberInformationEmail :: "config \<Rightarrow> env \<Rightarrow> MemberData list \<Rightarrow> world \<Rightarrow> world" where
  "sendMemberInformationEmail cfg ev members w =
     (case sendEmail cfg ev ''Availity Referrals - Current Members''
             (''Current Members in Referrals:'' @ nl @ nl @ member_lines 0 members) w of
        (None, w1) \<Rightarrow> w1
      | (Some e, w1) \<Rightarrow> emit (ConsoleError ''Error sending member information email:'') w1)"

definition member_doc :: "config \<Rightarrow> nat \<Rightarrow> int \<Rightarrow> MemberData \<Rightarrow> referral_doc" where
  "member_doc cfg i now m =
     \<lparr>doc_id = i, doc_memberID = md_memberID m, doc_memberName = md_memberName m,
      doc_serviceName = or_else (md_serviceName m) [], doc_regionName = None,
      doc_county = None, doc_plan = None, doc_preferredStartDate = None,
      doc_status = or_else (md_status m) [],
      doc_requestOn = or_else (md_requestDate m) (toISOString cfg now),
      isNotified = True, createdAt = now\<rparr>"

definition member_notification :: "nat \<Rightarrow> nat \<Rightarrow> int \<Rightarrow> MemberData \<Rightarrow> notification_doc" where
  "member_notification i rid now m =
     \<lparr>notif_id = i, referralId = rid, notif_memberName = md_memberName m,
      notif_memberID = md_memberID m,
      message = ''Member found in referrals: '' @ md_memberName m @ '' (''
                  @ or_else (md_serviceName m) ''No service specified'' @ '')'',
      isRead = False, notif_createdAt = now\<rparr>"

text \<open>The body of the loop of lines 1208 to 1247, for one scraped member.\<close>

definition saveMember :: "config \<Rightarrow> env \<Rightarrow> MemberData \<Rightarrow> world \<Rightarrow> error option \<times> world" where
  "saveMember cfg ev m w =
     (let w0 = emit (FindOneByName (md_memberID m) (md_memberName m)) w
      in case findOneByName (referrals w) (md_memberID m) (md_memberName m) of
           Some existingMember \<Rightarrow> (None, w0)
         | None \<Rightarrow>
             let newReferral = member_doc cfg (next_id w0) (clock w0) m;
                 w1 = createReferral newReferral w0
             in case createNotification
                       (member_notification (next_id w1) (doc_id newReferral) (clock w1) m) w1 of
                  (Some e, w2) \<Rightarrow> (Some e, w2)
                | (None, w2) \<Rightarrow>
                    sendSMS cfg ev
                      (''New member in referrals: '' @ md_memberName m @ '' ('' @ md_memberID m
                         @ ''). Check dashboard for details.'') w2)"

fun saveMembers :: "config \<Rightarrow> env \<Rightarrow> MemberData list \<Rightarrow> world \<Rightarrow> error option \<times> world" where
  "saveMembers cfg ev [] w = (None, w)"
| "saveMembers cfg ev (m # ms) w =
     (case saveMember cfg ev m w of
        (Some e, w1) \<Rightarrow> (Some e, w1)
      | (None, w1) \<Rightarrow> saveMembers cfg ev ms w1)"

text \<open>\<^verbatim>\<open>saveMembersToDatabase\<close>: the loop inside a \<^verbatim>\<open>try\<close> whose \<^verbatim>\<open>catch\<close> only logs.\<close>

definition saveMembersToDatabase :: "config \<Rightarrow> env \<Rightarrow> MemberData list \<Rightarrow> world \<Rightarrow> world" where
  "saveMembersToDatabase cfg ev members w =
     (case saveMembers cfg ev members w of
        (None, w1) \<Rightarrow> w1
      | (Some e, w1) \<Rightarrow> emit (ConsoleError ''Error saving members to database:'') w1)"

text \<open>
  \<^verbatim>\<open>extractMemberInformation\<close>: \<open>extracted ev\<close> is what the scrape of the page returns,
  \<open>None\<close> when waiting for or reading the page throws (the \<^verbatim>\<open>catch\<close> logs and returns).
\<close>

definition extractMemberInformation :: "config \<Rightarrow> env \<Rightarrow> world \<Rightarrow> world" where
  "extractMemberInformation cfg ev w =
     (case extracted ev of
        None \<Rightarrow> emit (ConsoleError ''Error extracting member information:'') w
      | Some members \<Rightarrow>
          saveMembersToDatabase cfg ev members
            (if length members > 0 then sendMemberInformationEmail cfg ev members w else w))"

section \<open>The session (bot.ts, lines 74 to 299)\<close>

text \<open>
  \<^verbatim>\<open>closeBrowser\<close>: \<^verbatim>\<open>browser.close()\<close> is taken to return. \<^verbatim>\<open>setupBot\<close>: the launch and
  the new page may each throw; the page settings after them are taken to succeed.
\<close>

definition closeBrowser :: "world \<Rightarrow> world" where
  "closeBrowser w =
     (case browser w of
        Some b \<Rightarrow> (emit BrowserClose w)\<lparr>browser := None, page := None\<rparr>
      | None \<Rightarrow> w)"

definition setupBot :: "env \<Rightarrow> world \<Rightarrow> error option \<times> world" where
  "setupBot ev w =
     (case launch ev of
        None \<Rightarrow> (Some SetupError, emit (ConsoleError ''Error setting up bot:'') (emit Launch w))
      | Some b \<Rightarrow>
          let w1 = (emit Launch w)\<lparr>browser := Some b\<rparr>
          in case newPage ev of
               None \<Rightarrow> (Some SetupError, emit (ConsoleError ''Error setting up bot:'') (emit NewPage w1))
             | Some p \<Rightarrow> (None, (emit NewPage w1)\<lparr>page := Some p\<rparr>))"

text \<open>
  \<^verbatim>\<open>loginToAvaility\<close>. Everything the function does on the page between the set-up and
  the scrape (credentials, second factor, banners, the walk to the referrals page) is one
  call to the outside, \<open>PortalLogin\<close>, which either completes or throws. The scrape
  and its save are the last step of the walk (line 1014), so each login that completes
  has run the page path. The function returns \<^verbatim>\<open>true\<close> or throws.
\<close>

definition loginToAvaility :: "config \<Rightarrow> env \<Rightarrow> world \<Rightarrow> (error + bool) \<times> world" where
  "loginToAvaility cfg ev w =
     (case (if browser w = None \<or> page w = None then setupBot ev w else (None, w)) of
        (Some e, w0) \<Rightarrow> (Inl e, emit (ConsoleError ''Error during login attempt:'') w0)
      | (None, w0) \<Rightarrow>
          (case page w0 of
             None \<Rightarrow> (Inl PageNotInitialized, emit (ConsoleError ''Error during login attempt:'') w0)
           | Some p \<Rightarrow>
               let w1 = (emit PortalLogin w0)\<lparr>clock := clock w0 + int (login_ms ev)\<rparr>
               in if portal_login ev then (Inr True, extractMemberInformation cfg ev w1)
                  else (Inl LoginError, emit (ConsoleError ''Error during login attempt:'') w1)))"

section \<open>One polling cycle\<close>

text \<open>The \<^verbatim>\<open>catch\<close> of lines 1381 to 1398: log, close the session on 401 and 403, throw again.\<close>

definition on_error :: "error \<Rightarrow> world \<Rightarrow> error option \<times> world" where
  "on_error e w =
     (let w1 = emit (ConsoleError ''Error checking for new referrals:'') w
      in if e = AxiosError (Some 401) \<or> e = AxiosError (Some 403)
         then (Some e, (closeBrowser w1)\<lparr>browser := None, page := None\<rparr>)
         else (Some e, w1))"

text \<open>Lines 1268 to 1301: the cookies, the token, the one request.\<close>

definition fetchReferrals :: "env \<Rightarrow> world \<Rightarrow> (error + referral list) \<times> world" where
  "fetchReferrals ev w =
     (case getSessionCookies ev w of
        Inl e \<Rightarrow> (Inl e, w)
      | Inr cookies \<Rightarrow>
          let xsrfToken = extractXsrfToken cookies;
              w1 = (emit (AxiosPost cookies xsrfToken) w)\<lparr>clock := clock w + int (fetch_ms ev)\<rparr>
          in case axios_post ev of
               HttpError st \<Rightarrow> (Inl (AxiosError (Some st)), w1)
             | NetworkError \<Rightarrow> (Inl (AxiosError None), w1)
             | Response rs \<Rightarrow> (Inr rs, w1))"

definition checkForNewReferrals :: "config \<Rightarrow> env \<Rightarrow> world \<Rightarrow> error option \<times> world" where
  "checkForNewReferrals cfg ev w =
     (case loginToAvaility cfg ev w of
        (Inl e, w1) \<Rightarrow> on_error e w1
      | (Inr isLoggedIn, w1) \<Rightarrow>
          if \<not> isLoggedIn
          then on_error LoginFailed (emit (ConsoleError ''Failed to login to Availity'') w1)
          else
            (case fetchReferrals ev w1 of
               (Inl e, w2) \<Rightarrow> on_error e w2
             | (Inr rs, w2) \<Rightarrow>
                 (let currentTime = clock w2
                  in case processNewReferrals cfg ev (newReferrals cfg (lastCheckTime w2) rs) w2 of
                       (Some e, w3) \<Rightarrow> on_error e w3
                     | (None, w3) \<Rightarrow> (None, w3\<lparr>lastCheckTime := currentTime\<rparr>))))"

text \<open>
  \<^verbatim>\<open>startReferralMonitoring\<close> (lines 1407 to 1428) runs a cycle, logs what it throws and
  runs the next one: a run of cycles is a fold over what the outside answers in each.
  The cycles are taken one after the other (a cycle has ended when the timer fires again).
\<close>

fun run_cycles :: "config \<Rightarrow> env list \<Rightarrow> world \<Rightarrow> world" where
  "run_cycles cfg [] w = w"
| "run_cycles cfg (ev # evs) w = run_cycles cfg evs (snd (checkForNewReferrals cfg ev w))"

section \<open>Notions used in the statements\<close>

text \<open>
  \<open>only_logs w w'\<close>: between \<open>w\<close> and \<open>w'\<close> only the trace grew, and only by channel and
  console events. \<open>lookups\<close> lists, in order, the keys the request path looked up.
  \<open>page_path w w'\<close>: the session variables, the watermark, the clock and the request
  path's lookups are those of \<open>w\<close>, and the trace of \<open>w\<close> is a prefix of that of \<open>w'\<close>.
\<close>

fun quiet :: "event \<Rightarrow> bool" where
  "quiet (SendMail f t s b) = True"
| "quiet (MessagesCreate b f t) = True"
| "quiet (ConsoleError s) = True"
| "quiet (ConsoleWarn s) = True"
| "quiet e = False"

definition only_logs :: "world \<Rightarrow> world \<Rightarrow> bool" where
  "only_logs w w' = (\<exists>tr. w' = w\<lparr>trace := trace w @ tr\<rparr> \<and> list_all quiet tr)"

fun lookup_of :: "event \<Rightarrow> (string \<times> string) list" where
  "lookup_of (FindOneByRequestOn m r) = [(m, r)]"
| "lookup_of e = []"

definition lookups :: "event list \<Rightarrow> (string \<times> string) list" where
  "lookups tr = concat (map lookup_of tr)"

definition page_path :: "world \<Rightarrow> world \<Rightarrow> bool" where
  "page_path w w' =
     (browser w' = browser w \<and> page w' = page w \<and> lastCheckTime w' = lastCheckTime w
      \<and> clock w' = clock w \<and> prefix (trace w) (trace w')
      \<and> lookups (trace w') = lookups (trace w))"



text \<open>The natural key of a stored document and of a candidate; how often a key is stored.\<close>

definition doc_key :: "referral_doc \<Rightarrow> string \<times> string" where
  "doc_key d = (doc_memberID d, doc_requestOn d)"

definition key_count :: "string \<times> string \<Rightarrow> referral_doc list \<Rightarrow> nat" where
  "key_count k ds = length (filter (\<lambda>d. doc_key d = k) ds)"

definition ref_key :: "referral \<Rightarrow> string \<times> string" where
  "ref_key r = (memberID r, requestOn r)"


text \<open>
  The page path of a cycle's login keeps the natural keys apart: if no key was stored
  twice before the login, none is after it.
\<close>

definition scrape_keeps_keys :: "config \<Rightarrow> env \<Rightarrow> world \<Rightarrow> bool" where
  "scrape_keeps_keys cfg ev w =
     (distinct (map doc_key (referrals w)) \<longrightarrow>
      distinct (map doc_key (referrals (snd (loginToAvaility cfg ev w)))))"

section \<open>Example inputs\<close>

text \<open>
  One referral, a configuration with both channels set up, a cycle in which everything
  outside answers well, and a world whose watermark is a day older than the referral.
\<close>

definition ann :: referral where
  "ann = \<lparr>memberName = ''Ann Lee'', memberID = ''A1'', serviceName = ''Personal Care'',
     regionName = ''West'', county = ''Shelby'', plan = ''Choices'',
     preferredStartDate = ''2024-02-01'', status = ''NEW'',
     requestOn = ''2024-01-01T00:00:00Z''\<rparr>"

definition cfg_example :: config where
  "cfg_example =
     \<lparr>EMAIL_USER = Some ''apikey'', EMAIL_PASS = Some ''secret'', EMAIL_FROM = None,
      EMAIL_RECIPIENTS = Some ''ops@example.org, lead@example.org'',
      TWILIO_SID = Some ''AC1'', TWILIO_AUTH_TOKEN = Some ''tok'',
      TWILIO_PHONE_NUMBER = Some ''+15550001'', SMS_RECIPIENTS = Some ''+15550002'',
      Date_parse = (\<lambda>s. if s = ''2024-01-01T00:00:00Z'' then Some 1704067200000
                        else if s = ''2023-06-01T00:00:00Z'' then Some 1685577600000
                        else None),
      toISOString = (\<lambda>t. ''2024-01-01T00:46:45.000Z'')\<rparr>"

definition ev_example :: env where
  "ev_example =
     \<lparr>launch = Some 1, newPage = Some 2, portal_login = True, extracted = Some [],
      cookie_jar = [(''JSESSIONID'', ''abc''), (''XSRF-TOKEN'', ''tok123'')],
      axios_post = Response [ann],
      sendMail_ok = (\<lambda>n. True), create_ok = (\<lambda>n. True),
      login_ms = 5000, fetch_ms = 300, lookup_ms = 2\<rparr>"

definition w_start :: world where
  "w_start =
     \<lparr>browser = None, page = None, lastCheckTime = 1703980800000, referrals = [],
      notifications = [], next_id = 0, clock = 1704070000000, trace = []\<rparr>"




text \<open>The same cycle with the mail transport refusing, and with the portal answering 403.\<close>

definition ev_mail_down :: env where
  "ev_mail_down = ev_example\<lparr>sendMail_ok := (\<lambda>n. False)\<rparr>"

definition ev_403 :: env where
  "ev_403 = ev_example\<lparr>axios_post := HttpError 403\<rparr>"



text \<open>A cycle whose page lists one referral, with its number and request date.\<close>

definition bob_listed :: MemberData where
  "bob_listed =
     \<lparr>md_memberName = ''Bob Ray'', md_memberID = ''R77'',
      md_serviceName = Some ''Attendant Care'', md_status = Some ''NEW'',
      md_requestDate = Some ''01/02/2024'', md_additionalInfo = Some []\<rparr>"

definition ev_listing :: env where
  "ev_listing = ev_example\<lparr>extracted := Some [bob_listed]\<rparr>"

text \<open>
  A scrape of two listings whose referral number could not be read (line 1126 then names
  both \<^verbatim>\<open>unknown-\<close> and the millisecond) and that were requested on the same day.
\<close>

definition unnumbered :: "MemberData list" where
  "unnumbered =
     [\<lparr>md_memberName = ''Ann Lee'', md_memberID = ''unknown-1704070004000'',
       md_serviceName = Some ''Personal Care'', md_status = Some ''NEW'',
       md_requestDate = Some ''01/01/2024'', md_additionalInfo = Some []\<rparr>,
      \<lparr>md_memberName = ''Bob Ray'', md_memberID = ''unknown-1704070004000'',
       md_serviceName = Some ''Attendant Care'', md_status = Some ''NEW'',
       md_requestDate = Some ''01/01/2024'', md_additionalInfo = Some []\<rparr>]"

definition ev_unnumbered :: env where
  "ev_unnumbered = ev_example\<lparr>extracted := Some unnumbered, axios_post := Response []\<rparr>"

text \<open>The listing of the referral \<open>ann\<close> as the page shows it, the name written family name first.\<close>

definition ann_listed :: MemberData where
  "ann_listed =
     \<lparr>md_memberName = ''LEE, ANN'', md_memberID = ''A1'',
      md_serviceName = Some ''Personal Care'', md_status = Some ''NEW'',
      md_requestDate = Some ''2024-01-01T00:00:00Z'', md_additionalInfo = Some []\<rparr>"



text \<open>A jar with a cookie whose name only ends in the token's name, and a cycle without the token.\<close>

definition jar_other_name :: "(string \<times> string) list" where
  "jar_other_name = [(''JSESSIONID'', ''abc''), (''MY-XSRF-TOKEN'', ''abc'')]"

definition ev_no_token :: env where
  "ev_no_token = ev_example\<lparr>cookie_jar := [(''JSESSIONID'', ''abc'')]\<rparr>"

text \<open>
  The world after a cycle that stored \<open>ann\<close>, and the worlds after the login and after the
  request of the cycle in which the mail transport refuses.
\<close>

definition w_ann :: world where
  "w_ann = snd (checkForNewReferrals cfg_example ev_example w_start)"

definition w_logged_in :: world where
  "w_logged_in = snd (loginToAvaility cfg_example ev_mail_down w_start)"

definition w_fetched :: world where
  "w_fetched = snd (fetchReferrals ev_mail_down w_logged_in)"



section \<open>How the steps change the world\<close>

lemma trace_emit [simp]: "trace (emit e w) = trace w @ [e]"
  by (simp add: emit_def)

lemma emit_fields [simp]:
  "browser (emit e w) = browser w" "page (emit e w) = page w"
  "lastCheckTime (emit e w) = lastCheckTime w" "referrals (emit e w) = referrals w"
  "notifications (emit e w) = notifications w" "next_id (emit e w) = next_id w"
  "clock (emit e w) = clock w"
  by (simp_all add: emit_def)

lemma only_logs_refl [simp]: "only_logs w w"
  unfolding only_logs_def by (rule exI [of _ "[]"]) simp

lemma only_logs_trans: "only_logs w w1 \<Longrightarrow> only_logs w1 w2 \<Longrightarrow> only_logs w w2"
  unfolding only_logs_def
  by (elim exE conjE, rule_tac x = "tr @ tra" in exI) simp

lemma only_logs_emit: "quiet e \<Longrightarrow> only_logs w (emit e w)"
  unfolding only_logs_def emit_def by (rule exI [of _ "[e]"]) simp

lemma only_logs_emit_after: "quiet e \<Longrightarrow> only_logs w w1 \<Longrightarrow> only_logs w (emit e w1)"
  by (blast intro: only_logs_trans only_logs_emit)

lemma only_logs_fields:
  assumes "only_logs w w'"
  shows "browser w' = browser w" "page w' = page w" "lastCheckTime w' = lastCheckTime w"
    "referrals w' = referrals w" "notifications w' = notifications w"
    "next_id w' = next_id w" "clock w' = clock w" "prefix (trace w) (trace w')"
  using assms unfolding only_logs_def by auto

lemma sendEmail_only_logs: "sendEmail cfg ev s t w = (r, w') \<Longrightarrow> only_logs w w'"
  by (auto simp: sendEmail_def Let_def split: if_splits intro!: only_logs_emit only_logs_emit_after)

lemma sms_each_only_logs: "sms_each ev b f ns w = (r, w') \<Longrightarrow> only_logs w w'"
proof (induction ns arbitrary: w)
  case Nil
  then show ?case by simp
next
  case (Cons n ns)
  let ?w1 = "emit (MessagesCreate b f (trim n)) w"
  have step: "only_logs w ?w1" by (simp add: only_logs_emit)
  show ?case
  proof (cases "create_ok ev (sms_calls (trace w))")
    case True
    with Cons.prems have "sms_each ev b f ns ?w1 = (r, w')" by (simp add: Let_def)
    from Cons.IH [OF this] step show ?thesis by (blast intro: only_logs_trans)
  next
    case False
    with Cons.prems have "w' = ?w1" by (simp add: Let_def)
    with step show ?thesis by simp
  qed
qed

lemma sendSMS_only_logs: "sendSMS cfg ev b w = (r, w') \<Longrightarrow> only_logs w w'"
  by (auto simp: sendSMS_def split: if_splits option.splits prod.splits
      intro!: only_logs_emit only_logs_emit_after dest: sms_each_only_logs)

lemma lookups_append [simp]: "lookups (xs @ ys) = lookups xs @ lookups ys"
  by (simp add: lookups_def)

lemma lookups_simps [simp]: "lookups [] = []" "lookups (e # es) = lookup_of e @ lookups es"
  by (simp_all add: lookups_def)

lemma quiet_lookups: "list_all quiet tr \<Longrightarrow> lookups tr = []"
proof (induction tr)
  case Nil
  then show ?case by simp
next
  case (Cons e tr)
  then show ?case by (cases e) simp_all
qed

lemma page_path_refl [simp]: "page_path w w"
  by (simp add: page_path_def)

lemma page_path_trans: "page_path w w1 \<Longrightarrow> page_path w1 w2 \<Longrightarrow> page_path w w2"
  unfolding page_path_def by auto

lemma only_logs_page_path: "only_logs w w' \<Longrightarrow> page_path w w'"
  unfolding only_logs_def page_path_def
  by (auto simp: quiet_lookups)

lemma page_path_emit: "lookup_of e = [] \<Longrightarrow> page_path w (emit e w)"
  by (simp add: page_path_def)

lemma page_path_createReferral: "page_path w (createReferral d w)"
  by (simp add: page_path_def createReferral_def)

lemma page_path_createNotification: "createNotification n w = (r, w') \<Longrightarrow> page_path w w'"
  by (auto simp: page_path_def createNotification_def split: if_splits)

lemma page_path_fields:
  assumes "page_path w w'"
  shows "browser w' = browser w" "page w' = page w" "lastCheckTime w' = lastCheckTime w"
    "clock w' = clock w" "prefix (trace w) (trace w')" "lookups (trace w') = lookups (trace w)"
  using assms unfolding page_path_def by auto

lemma saveMember_page_path: "saveMember cfg ev m w = (r, w') \<Longrightarrow> page_path w w'"
proof -
  assume a: "saveMember cfg ev m w = (r, w')"
  let ?w0 = "emit (FindOneByName (md_memberID m) (md_memberName m)) w"
  have p0: "page_path w ?w0" by (simp add: page_path_emit)
  show ?thesis
  proof (cases "findOneByName (referrals w) (md_memberID m) (md_memberName m)")
    case (Some d)
    with a have "w' = ?w0" by (simp add: saveMember_def Let_def)
    with p0 show ?thesis by simp
  next
    case None
    let ?w1 = "createReferral (member_doc cfg (next_id ?w0) (clock ?w0) m) ?w0"
    have p1: "page_path w ?w1"
      using p0 page_path_createReferral by (rule page_path_trans)
    obtain r2 w2 where c: "createNotification
        (member_notification (next_id ?w1) (doc_id (member_doc cfg (next_id ?w0) (clock ?w0) m))
           (clock ?w1) m) ?w1 = (r2, w2)"
      by (cases "createNotification
        (member_notification (next_id ?w1) (doc_id (member_doc cfg (next_id ?w0) (clock ?w0) m))
           (clock ?w1) m) ?w1") blast
    have p2: "page_path w w2"
      using p1 page_path_createNotification [OF c] by (rule page_path_trans)
    show ?thesis
    proof (cases r2)
      case (Some e)
      with a None c have "w' = w2" by (simp add: saveMember_def Let_def)
      with p2 show ?thesis by simp
    next
      case r2: None
      with a None c have "\<exists>b. sendSMS cfg ev b w2 = (r, w')"
        by (auto simp: saveMember_def Let_def)
      then have "page_path w2 w'"
        by (blast dest: sendSMS_only_logs only_logs_page_path)
      with p2 show ?thesis by (rule page_path_trans)
    qed
  qed
qed

lemma saveMembers_page_path: "saveMembers cfg ev ms w = (r, w') \<Longrightarrow> page_path w w'"
proof (induction ms arbitrary: w)
  case Nil
  then show ?case by simp
next
  case (Cons m ms)
  obtain r1 w1 where s: "saveMember cfg ev m w = (r1, w1)"
    by (cases "saveMember cfg ev m w") blast
  have p1: "page_path w w1" using s by (rule saveMember_page_path)
  show ?case
  proof (cases r1)
    case None
    with Cons.prems s have "saveMembers cfg ev ms w1 = (r, w')" by simp
    from p1 Cons.IH [OF this] show ?thesis by (rule page_path_trans)
  next
    case (Some e)
    with Cons.prems s have "w' = w1" by simp
    with p1 show ?thesis by simp
  qed
qed

lemma saveMembersToDatabase_page_path: "page_path w (saveMembersToDatabase cfg ev ms w)"
proof (cases "saveMembers cfg ev ms w")
  case (Pair r w1)
  then have "page_path w w1" by (rule saveMembers_page_path)
  then show ?thesis
    using Pair
    by (auto simp: saveMembersToDatabase_def split: option.splits
        intro: page_path_trans [OF _ page_path_emit])
qed

lemma sendMemberInformationEmail_only_logs: "only_logs w (sendMemberInformationEmail cfg ev ms w)"
  unfolding sendMemberInformationEmail_def
  by (auto split: prod.splits option.splits dest!: sendEmail_only_logs intro: only_logs_emit_after)

lemma extractMemberInformation_page_path: "page_path w (extractMemberInformation cfg ev w)"
  unfolding extractMemberInformation_def
  by (auto split: option.splits
      intro: page_path_emit page_path_trans [OF only_logs_page_path saveMembersToDatabase_page_path]
        sendMemberInformationEmail_only_logs saveMembersToDatabase_page_path)

lemma extract_nothing_only_logs:
  "extracted ev = None \<or> extracted ev = Some [] \<Longrightarrow> only_logs w (extractMemberInformation cfg ev w)"
  by (auto simp: extractMemberInformation_def saveMembersToDatabase_def intro!: only_logs_emit)

text \<open>The set-up and the login.\<close>

lemma setupBot_fields:
  assumes "setupBot ev w = (r, w')"
  shows "lastCheckTime w' = lastCheckTime w" "clock w' = clock w" "referrals w' = referrals w"
    "prefix (trace w) (trace w')" "lookups (trace w') = lookups (trace w)"
    "r = None \<Longrightarrow> browser w' = launch ev \<and> page w' = newPage ev \<and> launch ev \<noteq> None \<and> newPage ev \<noteq> None"
    "\<exists>tr. trace w' = trace w @ Launch # tr"
  using assms by (auto simp: setupBot_def Let_def split: option.splits)

lemma prefix_snoc_left: "prefix (xs @ [e]) ys \<Longrightarrow> prefix xs ys"
  by (meson prefix_order.trans prefixI)

lemma login_grows:
  assumes "loginToAvaility cfg ev w = (r, w')"
  shows "lastCheckTime w' = lastCheckTime w" "clock w \<le> clock w'" "prefix (trace w) (trace w')"
    "lookups (trace w') = lookups (trace w)"
proof -
  obtain r0 w0 where s: "(if browser w = None \<or> page w = None then setupBot ev w else (None, w)) = (r0, w0)"
    by (cases "if browser w = None \<or> page w = None then setupBot ev w else (None, w)") blast
  have f0: "lastCheckTime w0 = lastCheckTime w" "clock w0 = clock w" "prefix (trace w) (trace w0)"
    "lookups (trace w0) = lookups (trace w)"
    using s setupBot_fields [of ev w r0 w0] by (auto split: if_splits)
  let ?w1 = "(emit PortalLogin w0)\<lparr>clock := clock w0 + int (login_ms ev)\<rparr>"
  note pp = page_path_fields [OF extractMemberInformation_page_path [of ?w1 cfg ev]]
  have pre: "prefix (trace w0) (trace (extractMemberInformation cfg ev ?w1))"
    using pp(5) by (simp add: prefix_snoc_left)
  have "lastCheckTime w' = lastCheckTime w0 \<and> clock w0 \<le> clock w' \<and> prefix (trace w0) (trace w')
      \<and> lookups (trace w') = lookups (trace w0)"
    using assms s pp pre unfolding loginToAvaility_def Let_def
    by (auto split: option.splits if_splits)
  with f0 show "lastCheckTime w' = lastCheckTime w" "clock w \<le> clock w'" "prefix (trace w) (trace w')"
    "lookups (trace w') = lookups (trace w)"
    by (auto intro: prefix_order.trans)
qed

lemma login_ok:
  assumes "loginToAvaility cfg ev w = (Inr b, w')"
  shows "b" "browser w' \<noteq> None" "page w' \<noteq> None" "clock w' = clock w + int (login_ms ev)"
proof -
  obtain r0 w0 where s: "(if browser w = None \<or> page w = None then setupBot ev w else (None, w)) = (r0, w0)"
    by (cases "if browser w = None \<or> page w = None then setupBot ev w else (None, w)") blast
  have f0: "clock w0 = clock w" "r0 = None \<Longrightarrow> browser w0 \<noteq> None \<and> page w0 \<noteq> None"
    using s setupBot_fields [of ev w r0 w0] by (auto split: if_splits)
  let ?w1 = "(emit PortalLogin w0)\<lparr>clock := clock w0 + int (login_ms ev)\<rparr>"
  note pp = page_path_fields [OF extractMemberInformation_page_path [of ?w1 cfg ev]]
  have "b \<and> browser w' \<noteq> None \<and> page w' \<noteq> None \<and> clock w' = clock w + int (login_ms ev)"
    using assms s f0 pp unfolding loginToAvaility_def Let_def
    by (auto split: option.splits if_splits)
  then show "b" "browser w' \<noteq> None" "page w' \<noteq> None" "clock w' = clock w + int (login_ms ev)"
    by simp_all
qed


text \<open>The request path, one referral.\<close>

lemma split_comma_not_Nil [simp]: "split_comma s \<noteq> []"
  by (induction s) (auto split: list.splits)




lemma processReferral_present:
  "findOneByRequestOn (referrals w) (memberID r) (requestOn r) = Some d \<Longrightarrow>
   processReferral cfg ev r w =
     (None, (emit (FindOneByRequestOn (memberID r) (requestOn r)) w)
              \<lparr>clock := clock w + int (lookup_ms ev)\<rparr>)"
  by (simp add: processReferral_def Let_def)




lemma doc_key_mark_notified [simp]: "map doc_key (mark_notified i ds) = map doc_key ds"
  by (simp add: mark_notified_def doc_key_def)

lemma only_logs_snoc_fields:
  assumes "only_logs w w'"
  shows "\<exists>tr. trace w' = trace w @ tr \<and> lookups tr = []"
  using assms unfolding only_logs_def by (auto simp: quiet_lookups)

lemma processReferral_frame:
  assumes "processReferral cfg ev r w = (res, w')"
  shows "lastCheckTime w' = lastCheckTime w" "browser w' = browser w" "page w' = page w"
    "clock w' = clock w + int (lookup_ms ev)" "prefix (trace w) (trace w')"
    "lookups (trace w') = lookups (trace w) @ [(memberID r, requestOn r)]"
    "map doc_key (referrals w') =
       (case findOneByRequestOn (referrals w) (memberID r) (requestOn r) of
          Some d \<Rightarrow> map doc_key (referrals w)
        | None \<Rightarrow> map doc_key (referrals w) @ [(memberID r, requestOn r)])"
proof -
  let ?key = "(memberID r, requestOn r)"
  let ?w0 = "(emit (FindOneByRequestOn (memberID r) (requestOn r)) w)\<lparr>clock := clock w + int (lookup_ms ev)\<rparr>"
  let ?goal = "lastCheckTime w' = lastCheckTime w \<and> browser w' = browser w \<and> page w' = page w
    \<and> clock w' = clock w + int (lookup_ms ev) \<and> prefix (trace w) (trace w')
    \<and> lookups (trace w') = lookups (trace w) @ [?key]
    \<and> map doc_key (referrals w') =
       (case findOneByRequestOn (referrals w) (memberID r) (requestOn r) of
          Some d \<Rightarrow> map doc_key (referrals w)
        | None \<Rightarrow> map doc_key (referrals w) @ [?key])"
  have ?goal
  proof (cases "findOneByRequestOn (referrals w) (memberID r) (requestOn r)")
    case (Some d)
    with assms have "w' = ?w0" by (simp add: processReferral_present)
    with Some show ?thesis by simp
  next
    case None
    let ?d = "api_doc (next_id ?w0) (clock ?w0) r"
    let ?w1 = "createReferral ?d ?w0"
    have k: "doc_key ?d = ?key" by (simp add: doc_key_def api_doc_def)
    have f1: "lastCheckTime ?w1 = lastCheckTime w" "browser ?w1 = browser w" "page ?w1 = page w"
      "clock ?w1 = clock w + int (lookup_ms ev)"
      "trace ?w1 = trace w @ [FindOneByRequestOn (memberID r) (requestOn r), ReferralCreate ?d]"
      "map doc_key (referrals ?w1) = map doc_key (referrals w) @ [?key]"
      using k by (simp_all add: createReferral_def)
    obtain r2 w2 where c: "createNotification
        (api_notification (next_id ?w1) (doc_id ?d) (clock ?w1) r) ?w1 = (r2, w2)"
      by (cases "createNotification (api_notification (next_id ?w1) (doc_id ?d) (clock ?w1) r) ?w1")
        blast
    have f2: "lastCheckTime w2 = lastCheckTime w" "browser w2 = browser w" "page w2 = page w"
      "clock w2 = clock w + int (lookup_ms ev)"
      "\<exists>tr. trace w2 = trace ?w1 @ tr \<and> lookups tr = []"
      "map doc_key (referrals w2) = map doc_key (referrals w) @ [?key]"
      using c f1 by (auto simp: createNotification_def split: if_splits)
    have ext: "\<And>v. lastCheckTime v = lastCheckTime w \<Longrightarrow> browser v = browser w \<Longrightarrow> page v = page w
      \<Longrightarrow> clock v = clock w + int (lookup_ms ev)
      \<Longrightarrow> (\<exists>tr. trace v = trace ?w1 @ tr \<and> lookups tr = [])
      \<Longrightarrow> map doc_key (referrals v) = map doc_key (referrals w) @ [?key]
      \<Longrightarrow> w' = v \<or> w' = (emit (ReferralSave (doc_id ?d)) v)
                \<lparr>referrals := mark_notified (doc_id ?d) (referrals v)\<rparr> \<Longrightarrow> ?thesis"
      using None f1(5) by auto
    show ?thesis
    proof (cases r2)
      case (Some e)
      with assms None c have "w' = w2" by (simp add: processReferral_def Let_def)
      with f2 show ?thesis by (intro ext [of w2]) simp_all
    next
      case r2: None
      obtain r3 w3 where m: "sendEmail cfg ev ''New Referral Notification'' (email_text r) w2 = (r3, w3)"
        by (cases "sendEmail cfg ev ''New Referral Notification'' (email_text r) w2") blast
      note l3 = sendEmail_only_logs [OF m]
      have f3: "lastCheckTime w3 = lastCheckTime w" "browser w3 = browser w" "page w3 = page w"
        "clock w3 = clock w + int (lookup_ms ev)"
        "\<exists>tr. trace w3 = trace ?w1 @ tr \<and> lookups tr = []"
        "map doc_key (referrals w3) = map doc_key (referrals w) @ [?key]"
        using f2 only_logs_fields [OF l3] only_logs_snoc_fields [OF l3] by auto
      show ?thesis
      proof (cases r3)
        case (Some e)
        with assms None c r2 m have "w' = w3" by (simp add: processReferral_def Let_def)
        with f3 show ?thesis by (intro ext [of w3]) simp_all
      next
        case r3: None
        obtain r4 w4 where t: "sendSMS cfg ev (sms_text r) w3 = (r4, w4)"
          by (cases "sendSMS cfg ev (sms_text r) w3") blast
        note l4 = sendSMS_only_logs [OF t]
        have f4: "lastCheckTime w4 = lastCheckTime w" "browser w4 = browser w" "page w4 = page w"
          "clock w4 = clock w + int (lookup_ms ev)"
          "\<exists>tr. trace w4 = trace ?w1 @ tr \<and> lookups tr = []"
          "map doc_key (referrals w4) = map doc_key (referrals w) @ [?key]"
          using f3 only_logs_fields [OF l4] only_logs_snoc_fields [OF l4] by auto
        have "w' = w4 \<or> w' = (emit (ReferralSave (doc_id ?d)) w4)
                \<lparr>referrals := mark_notified (doc_id ?d) (referrals w4)\<rparr>"
          using assms None c r2 m r3 t by (cases r4) (simp_all add: processReferral_def Let_def)
        with f4 show ?thesis by (intro ext [of w4]) simp_all
      qed
    qed
  qed
  then show "lastCheckTime w' = lastCheckTime w" "browser w' = browser w" "page w' = page w"
    "clock w' = clock w + int (lookup_ms ev)" "prefix (trace w) (trace w')"
    "lookups (trace w') = lookups (trace w) @ [(memberID r, requestOn r)]"
    "map doc_key (referrals w') =
       (case findOneByRequestOn (referrals w) (memberID r) (requestOn r) of
          Some d \<Rightarrow> map doc_key (referrals w)
        | None \<Rightarrow> map doc_key (referrals w) @ [(memberID r, requestOn r)])"
    by simp_all
qed


lemma findOneByRequestOn_None:
  "findOneByRequestOn ds m r = None \<longleftrightarrow> (m, r) \<notin> set (map doc_key ds)"
  by (auto simp: findOneByRequestOn_def find_None_iff doc_key_def)

lemma processReferral_distinct:
  assumes "processReferral cfg ev r w = (res, w')" and "distinct (map doc_key (referrals w))"
  shows "distinct (map doc_key (referrals w'))"
proof (cases "findOneByRequestOn (referrals w) (memberID r) (requestOn r)")
  case None
  then have "(memberID r, requestOn r) \<notin> set (map doc_key (referrals w))"
    by (simp add: findOneByRequestOn_None)
  with processReferral_frame(7) [OF assms(1)] None assms(2) show ?thesis by simp
next
  case (Some d)
  with processReferral_frame(7) [OF assms(1)] assms(2) show ?thesis by simp
qed

lemma processNewReferrals_frame:
  assumes "processNewReferrals cfg ev rs w = (res, w')"
  shows "lastCheckTime w' = lastCheckTime w \<and> browser w' = browser w \<and> page w' = page w
    \<and> clock w \<le> clock w' \<and> prefix (trace w) (trace w')
    \<and> (distinct (map doc_key (referrals w)) \<longrightarrow> distinct (map doc_key (referrals w')))
    \<and> (\<exists>n\<le>length rs. lookups (trace w') = lookups (trace w) @ map ref_key (take n rs)
          \<and> (res = None \<longrightarrow> n = length rs))"
  using assms
proof (induction rs arbitrary: w)
  case Nil
  then show ?case by simp
next
  case (Cons r rs)
  obtain r1 w1 where s: "processReferral cfg ev r w = (r1, w1)"
    by (cases "processReferral cfg ev r w") blast
  note f = processReferral_frame [OF s] processReferral_distinct [OF s]
  show ?case
  proof (cases r1)
    case (Some e)
    with Cons.prems s have "w' = w1" "res = Some e" by simp_all
    with f show ?thesis
      by (auto simp: ref_key_def intro!: exI [of _ 1])
  next
    case None
    with Cons.prems s have "processNewReferrals cfg ev rs w1 = (res, w')" by simp
    from Cons.IH [OF this] obtain n where n: "n \<le> length rs"
      "lookups (trace w') = lookups (trace w1) @ map ref_key (take n rs)"
      "res = None \<longrightarrow> n = length rs"
      and g: "lastCheckTime w' = lastCheckTime w1" "browser w' = browser w1" "page w' = page w1"
      "clock w1 \<le> clock w'" "prefix (trace w1) (trace w')"
      "distinct (map doc_key (referrals w1)) \<longrightarrow> distinct (map doc_key (referrals w'))"
      by blast
    have "lookups (trace w') = lookups (trace w) @ map ref_key (take (Suc n) (r # rs))"
      using n(2) f(6) by (simp add: ref_key_def)
    moreover have "Suc n \<le> length (r # rs)" "res = None \<longrightarrow> Suc n = length (r # rs)"
      using n by simp_all
    ultimately have "\<exists>n\<le>length (r # rs). lookups (trace w') = lookups (trace w) @ map ref_key (take n (r # rs))
          \<and> (res = None \<longrightarrow> n = length (r # rs))"
      by blast
    moreover have "prefix (trace w) (trace w')"
      using f(5) g(5) by (rule prefix_order.trans)
    ultimately show ?thesis using f g by auto
  qed
qed

lemma on_error_fields:
  "fst (on_error e w) = Some e" "lastCheckTime (snd (on_error e w)) = lastCheckTime w"
  "clock (snd (on_error e w)) = clock w" "referrals (snd (on_error e w)) = referrals w"
  "notifications (snd (on_error e w)) = notifications w"
  "prefix (trace w) (trace (snd (on_error e w)))"
  "lookups (trace (snd (on_error e w))) = lookups (trace w)"
  by (auto simp: on_error_def Let_def closeBrowser_def split: option.splits)

lemma fetchReferrals_fields:
  assumes "fetchReferrals ev w = (r, w')"
  shows "lastCheckTime w' = lastCheckTime w" "clock w \<le> clock w'" "referrals w' = referrals w"
    "browser w' = browser w" "page w' = page w"
    "prefix (trace w) (trace w')" "lookups (trace w') = lookups (trace w)"
  using assms
  by (auto simp: fetchReferrals_def getSessionCookies_def Let_def
      split: option.splits fetch_result.splits sum.splits)

lemma fetchReferrals_page:
  assumes "page w \<noteq> None"
  shows "fetchReferrals ev w =
     ((case axios_post ev of HttpError st \<Rightarrow> Inl (AxiosError (Some st))
        | NetworkError \<Rightarrow> Inl (AxiosError None) | Response rs \<Rightarrow> Inr rs),
      (emit (AxiosPost (cookie_string (cookie_jar ev)) (extractXsrfToken (cookie_string (cookie_jar ev)))) w)
        \<lparr>clock := clock w + int (fetch_ms ev)\<rparr>)"
  using assms
  by (auto simp: fetchReferrals_def getSessionCookies_def Let_def split: fetch_result.splits)

lemma cycle_cases:
  obtains (login_failed) e w1 where "loginToAvaility cfg ev w = (Inl e, w1)"
      "checkForNewReferrals cfg ev w = on_error e w1"
  | (fetch_failed) w1 e w2 where "loginToAvaility cfg ev w = (Inr True, w1)"
      "fetchReferrals ev w1 = (Inl e, w2)" "checkForNewReferrals cfg ev w = on_error e w2"
  | (persist_failed) w1 rs w2 e w3 where "loginToAvaility cfg ev w = (Inr True, w1)"
      "fetchReferrals ev w1 = (Inr rs, w2)"
      "processNewReferrals cfg ev (newReferrals cfg (lastCheckTime w2) rs) w2 = (Some e, w3)"
      "checkForNewReferrals cfg ev w = on_error e w3"
  | (completed) w1 rs w2 w3 where "loginToAvaility cfg ev w = (Inr True, w1)"
      "fetchReferrals ev w1 = (Inr rs, w2)"
      "processNewReferrals cfg ev (newReferrals cfg (lastCheckTime w2) rs) w2 = (None, w3)"
      "checkForNewReferrals cfg ev w = (None, w3\<lparr>lastCheckTime := clock w2\<rparr>)"
proof -
  obtain l w1 where lg: "loginToAvaility cfg ev w = (l, w1)"
    by (cases "loginToAvaility cfg ev w") blast
  show thesis
  proof (cases l)
    case (Inl e)
    with lg show thesis by (intro login_failed [of e w1]) (simp_all add: checkForNewReferrals_def)
  next
    case (Inr b)
    with lg login_ok(1) [of cfg ev w b w1] have b: "l = Inr True" by simp
    obtain f w2 where ft: "fetchReferrals ev w1 = (f, w2)"
      by (cases "fetchReferrals ev w1") blast
    show thesis
    proof (cases f)
      case (Inl e)
      with lg b ft show thesis
        by (intro fetch_failed [of w1 e w2]) (simp_all add: checkForNewReferrals_def)
    next
      case (Inr rs)
      obtain p w3 where pr: "processNewReferrals cfg ev (newReferrals cfg (lastCheckTime w2) rs) w2 = (p, w3)"
        by (cases "processNewReferrals cfg ev (newReferrals cfg (lastCheckTime w2) rs) w2") blast
      show thesis
      proof (cases p)
        case None
        with lg b ft Inr pr show thesis
          by (intro completed [of w1 rs w2 w3]) (simp_all add: checkForNewReferrals_def Let_def)
      next
        case (Some e)
        with lg b ft Inr pr show thesis
          by (intro persist_failed [of w1 rs w2 e w3]) (simp_all add: checkForNewReferrals_def Let_def)
      qed
    qed
  qed
qed

lemma mail_calls_append [simp]: "mail_calls (xs @ ys) = mail_calls xs + mail_calls ys"
  by (simp add: mail_calls_def)

lemma mail_calls_Cons [simp]:
  "mail_calls [] = 0" "mail_calls (e # es) = (if is_SendMail e then 1 else 0) + mail_calls es"
  by (simp_all add: mail_calls_def)

lemma sms_calls_append [simp]: "sms_calls (xs @ ys) = sms_calls xs + sms_calls ys"
  by (simp add: sms_calls_def)

lemma sms_calls_Cons [simp]:
  "sms_calls [] = 0" "sms_calls (e # es) = (if is_MessagesCreate e then 1 else 0) + sms_calls es"
  by (simp_all add: sms_calls_def)

section \<open>The channels when nothing is configured\<close>




section \<open>The anti-forgery token\<close>

lemma xsrf_match_absent: "\<not> sublist ''XSRF-TOKEN='' s \<Longrightarrow> xsrf_match s = None"
proof (induction s)
  case Nil
  then show ?case by simp
next
  case (Cons c cs)
  have "\<not> sublist ''XSRF-TOKEN='' cs"
    using Cons.prems by (auto simp: sublist_Cons_right)
  then have ih: "xsrf_match cs = None" by (rule Cons.IH)
  have "take 11 (c # cs) \<noteq> ''XSRF-TOKEN=''"
  proof
    assume "take 11 (c # cs) = ''XSRF-TOKEN=''"
    then have "prefix ''XSRF-TOKEN='' (c # cs)" by (metis take_is_prefix)
    with Cons.prems show False by (simp add: sublist_Cons_right)
  qed
  then show ?case
    by (simp only: xsrf_match.simps ih simp_thms if_False)
qed

lemma xsrf_match_group: "xsrf_match s = Some m \<Longrightarrow> m \<noteq> [] \<and> CHR '';'' \<notin> set m"
proof (induction s)
  case Nil
  then show ?case by simp
next
  case (Cons c cs)
  let ?g = "takeWhile (\<lambda>x. x \<noteq> CHR '';'') (drop 11 (c # cs))"
  show ?case
  proof (cases "take 11 (c # cs) = ''XSRF-TOKEN='' \<and> ?g \<noteq> []")
    case True
    then have "xsrf_match (c # cs) = Some ?g"
      by (subst xsrf_match.simps) (rule if_P)
    with Cons.prems have "m = ?g" by simp
    moreover have "CHR '';'' \<notin> set ?g" by (auto dest: set_takeWhileD)
    ultimately show ?thesis using True by simp
  next
    case False
    then have "xsrf_match (c # cs) = xsrf_match cs"
      by (subst xsrf_match.simps) (rule if_not_P)
    with Cons.prems have "xsrf_match cs = Some m" by simp
    then show ?thesis by (rule Cons.IH)
  qed
qed

text \<open>
  Claim C10, as the code has it. \<^verbatim>\<open>extractXsrfToken\<close> returns a string for every cookie
  string (it is a total function, and what it returns never holds a \<^verbatim>\<open>;\<close>). When the
  text \<^verbatim>\<open>XSRF-TOKEN=\<close> occurs nowhere in the session's cookie string, it returns the empty
  string, and a cycle whose login completed sends its request with an empty
  \<^verbatim>\<open>X-XSRF-TOKEN\<close> header.
\<close>

theorem xsrf_token_absent:
  assumes "\<not> sublist ''XSRF-TOKEN='' (cookie_string (cookie_jar ev))"
    and "fst (loginToAvaility cfg ev w) = Inr True"
  shows "extractXsrfToken (cookie_string (cookie_jar ev)) = []
    \<and> AxiosPost (cookie_string (cookie_jar ev)) [] \<in> set (trace (snd (checkForNewReferrals cfg ev w)))
    \<and> CHR '';'' \<notin> set (extractXsrfToken anyCookies)"
proof -
  let ?c = "cookie_string (cookie_jar ev)"
  have tok: "extractXsrfToken ?c = []"
    using assms(1) by (simp add: extractXsrfToken_def xsrf_match_absent)
  obtain w1 where lg: "loginToAvaility cfg ev w = (Inr True, w1)"
    using assms(2) by (cases "loginToAvaility cfg ev w") simp
  have pg: "page w1 \<noteq> None" using login_ok [OF lg] by simp
  obtain f w2 where ft: "fetchReferrals ev w1 = (f, w2)"
    by (cases "fetchReferrals ev w1") blast
  have sent: "AxiosPost ?c [] \<in> set (trace w2)"
    using ft pg tok by (auto simp: fetchReferrals_page)
  have "prefix (trace w2) (trace (snd (checkForNewReferrals cfg ev w)))"
  proof (cases rule: cycle_cases [of cfg ev w])
    case (login_failed e w1')
    with lg show ?thesis by simp
  next
    case (fetch_failed w1' e w2')
    with lg ft on_error_fields(6) [of w2 e] show ?thesis by simp
  next
    case (persist_failed w1' rs w2' e w3)
    with lg ft have "prefix (trace w2) (trace w3)"
      using processNewReferrals_frame [OF persist_failed(3)] by simp
    with on_error_fields(6) [of w3 e] persist_failed(4) show ?thesis
      by (auto intro: prefix_order.trans)
  next
    case (completed w1' rs w2' w3)
    with lg ft processNewReferrals_frame [OF completed(3)]
    show ?thesis by simp
  qed
  with sent have "AxiosPost ?c [] \<in> set (trace (snd (checkForNewReferrals cfg ev w)))"
    using set_mono_prefix by blast
  moreover have "CHR '';'' \<notin> set (extractXsrfToken anyCookies)"
    by (auto simp: extractXsrfToken_def split: option.splits dest: xsrf_match_group [OF sym])
  ultimately show ?thesis using tok by simp
qed

theorem xsrf_token_absent_witness:
  "\<not> sublist ''XSRF-TOKEN='' (cookie_string (cookie_jar ev_no_token))
   \<and> fst (loginToAvaility cfg_example ev_no_token w_start) = Inr True
   \<and> extractXsrfToken (cookie_string (cookie_jar ev_no_token)) = []
   \<and> AxiosPost ''JSESSIONID=abc'' []
       \<in> set (trace (snd (checkForNewReferrals cfg_example ev_no_token w_start)))"
proof -
  have c: "cookie_string (cookie_jar ev_no_token) = ''JSESSIONID=abc''"
    by (simp add: ev_no_token_def ev_example_def cookie_string_def)
  have h1: "\<not> sublist ''XSRF-TOKEN='' (cookie_string (cookie_jar ev_no_token))"
    unfolding c by (simp add: sublist_Cons_right)
  have h2: "fst (loginToAvaility cfg_example ev_no_token w_start) = Inr True"
    by code_simp
  from xsrf_token_absent [OF h1 h2] h1 h2 show ?thesis by (simp add: c)
qed

text \<open>
  Claim C10 as stated fails on a jar that has no cookie named \<^verbatim>\<open>XSRF-TOKEN\<close> but one
  whose name ends in it: the pattern is not anchored at the start of a cookie name.
\<close>

theorem xsrf_token_other_cookie_counterexample:
  "''XSRF-TOKEN'' \<notin> set (map fst jar_other_name)
   \<and> extractXsrfToken (cookie_string jar_other_name) = ''abc''"
  by code_simp

section \<open>The watermark\<close>

text \<open>
  Claim C2, as the code has it. A cycle that completes sets \<^verbatim>\<open>lastCheckTime\<close> to
  \<^verbatim>\<open>currentTime\<close>, the clock read at line 1303: after the login and after the response
  to the request has arrived, before the candidates are filtered and stored. That is the
  time of the cycle's start plus what the login and the request took.
\<close>

theorem watermark_is_time_after_fetch:
  assumes "fst (checkForNewReferrals cfg ev w) = None"
  shows "lastCheckTime (snd (checkForNewReferrals cfg ev w))
           = clock w + int (login_ms ev) + int (fetch_ms ev)"
proof (cases rule: cycle_cases [of cfg ev w])
  case (login_failed e w1)
  with assms show ?thesis by (simp add: on_error_fields)
next
  case (fetch_failed w1 e w2)
  with assms show ?thesis by (simp add: on_error_fields)
next
  case (persist_failed w1 rs w2 e w3)
  with assms show ?thesis by (simp add: on_error_fields)
next
  case (completed w1 rs w2 w3)
  have "page w1 \<noteq> None" "clock w1 = clock w + int (login_ms ev)"
    using login_ok [OF completed(1)] by simp_all
  with completed(2) have "clock w2 = clock w + int (login_ms ev) + int (fetch_ms ev)"
    by (auto simp: fetchReferrals_page)
  with completed(4) show ?thesis by simp
qed

theorem watermark_is_time_after_fetch_witness:
  "fst (checkForNewReferrals cfg_example ev_example w_start) = None
   \<and> lastCheckTime (snd (checkForNewReferrals cfg_example ev_example w_start))
       = clock w_start + int (login_ms ev_example) + int (fetch_ms ev_example)"
proof -
  have h: "fst (checkForNewReferrals cfg_example ev_example w_start) = None"
    by code_simp
  from watermark_is_time_after_fetch [OF h] h show ?thesis by simp
qed

text \<open>
  Claim C2 as stated fails: in a cycle that completes, whose login took five seconds and
  whose request took 300 milliseconds, the watermark is not the time of the cycle's start.
\<close>

theorem watermark_not_cycle_start_counterexample:
  "fst (checkForNewReferrals cfg_example ev_example w_start) = None
   \<and> clock w_start = 1704070000000
   \<and> lastCheckTime (snd (checkForNewReferrals cfg_example ev_example w_start)) = 1704070005300"
  by code_simp

section \<open>Nothing from before the start\<close>





section \<open>A mail transport that refuses\<close>

lemma processReferral_mail_fails:
  assumes "findOneByRequestOn (referrals w) (memberID r) (requestOn r) = None"
    and "memberName r \<noteq> []" and "memberID r \<noteq> []"
    and "email_recipients cfg \<noteq> []" and "\<not> sendMail_ok ev (mail_calls (trace w))"
  shows "processReferral cfg ev r w =
     (Some MailError,
      w\<lparr>clock := clock w + int (lookup_ms ev),
        next_id := next_id w + 2,
        referrals := referrals w @ [api_doc (next_id w) (clock w + int (lookup_ms ev)) r],
        notifications := notifications w
           @ [api_notification (Suc (next_id w)) (next_id w) (clock w + int (lookup_ms ev)) r],
        trace := trace w
           @ [FindOneByRequestOn (memberID r) (requestOn r),
              ReferralCreate (api_doc (next_id w) (clock w + int (lookup_ms ev)) r),
              NotificationCreate
                (api_notification (Suc (next_id w)) (next_id w) (clock w + int (lookup_ms ev)) r),
              SendMail (or_else (EMAIL_FROM cfg) ''adeoyeoluwaferanmi@gmail.com'')
                (join '','' (email_recipients cfg)) ''New Referral Notification'' (email_text r),
              ConsoleError ''Error sending email notification:'']\<rparr>)"
  using assms
  by (simp add: processReferral_def Let_def createReferral_def createNotification_def
      sendEmail_def emit_def api_notification_def api_doc_def)

lemma processNewReferrals_append:
  "processNewReferrals cfg ev (xs @ ys) w =
     (case processNewReferrals cfg ev xs w of
        (Some e, w1) \<Rightarrow> (Some e, w1)
      | (None, w1) \<Rightarrow> processNewReferrals cfg ev ys w1)"
  by (induction xs arbitrary: w) (auto split: prod.splits option.splits)

text \<open>
  Claim C3, as the code has it. In a cycle whose login and request succeeded, let \<open>r\<close> be
  a new referral reached by the loop (those \<open>before\<close> it were handled without error), not
  yet stored, with a name and an id, and let the mail transport refuse its message. Then
  the failure is logged and thrown on: the cycle ends with the mail error; the stored
  record stays, with \<^verbatim>\<open>isNotified\<close> false, and so does its notification record; no SMS
  is attempted; the referrals after \<open>r\<close> are not looked at; the watermark is not advanced.
\<close>

theorem mail_failure_aborts_cycle:
  assumes "loginToAvaility cfg ev w = (Inr True, w1)" and "fetchReferrals ev w1 = (Inr rs, w2)"
    and "newReferrals cfg (lastCheckTime w) rs = before @ r # rest"
    and "processNewReferrals cfg ev before w2 = (None, w3)"
    and "findOneByRequestOn (referrals w3) (memberID r) (requestOn r) = None"
    and "memberName r \<noteq> []" and "memberID r \<noteq> []"
    and "email_recipients cfg \<noteq> []" and "\<not> sendMail_ok ev (mail_calls (trace w3))"
  shows "fst (checkForNewReferrals cfg ev w) = Some MailError
    \<and> lastCheckTime (snd (checkForNewReferrals cfg ev w)) = lastCheckTime w
    \<and> referrals (snd (checkForNewReferrals cfg ev w))
        = referrals w3 @ [api_doc (next_id w3) (clock w3 + int (lookup_ms ev)) r]
    \<and> \<not> isNotified (api_doc (next_id w3) (clock w3 + int (lookup_ms ev)) r)
    \<and> notifications (snd (checkForNewReferrals cfg ev w))
        = notifications w3
          @ [api_notification (Suc (next_id w3)) (next_id w3) (clock w3 + int (lookup_ms ev)) r]
    \<and> sms_calls (trace (snd (checkForNewReferrals cfg ev w))) = sms_calls (trace w3)
    \<and> trace (snd (checkForNewReferrals cfg ev w))
        = trace w3
          @ [FindOneByRequestOn (memberID r) (requestOn r),
             ReferralCreate (api_doc (next_id w3) (clock w3 + int (lookup_ms ev)) r),
             NotificationCreate
               (api_notification (Suc (next_id w3)) (next_id w3) (clock w3 + int (lookup_ms ev)) r),
             SendMail (or_else (EMAIL_FROM cfg) ''adeoyeoluwaferanmi@gmail.com'')
               (join '','' (email_recipients cfg)) ''New Referral Notification'' (email_text r),
             ConsoleError ''Error sending email notification:'',
             ConsoleError ''Error checking for new referrals:'']"
proof -
  have l2: "lastCheckTime w2 = lastCheckTime w"
    using login_grows(1) [OF assms(1)] fetchReferrals_fields(1) [OF assms(2)] by simp
  have l3: "lastCheckTime w3 = lastCheckTime w"
    using processNewReferrals_frame [OF assms(4)] l2 by simp
  note step = processReferral_mail_fails [OF assms(5-9)]
  define w4 where "w4 = snd (processReferral cfg ev r w3)"
  have s4: "processReferral cfg ev r w3 = (Some MailError, w4)"
    unfolding w4_def by (simp add: step)
  have loop: "processNewReferrals cfg ev (newReferrals cfg (lastCheckTime w2) rs) w2 = (Some MailError, w4)"
    unfolding l2 assms(3) by (simp add: processNewReferrals_append assms(4) s4)
  have cy: "checkForNewReferrals cfg ev w = on_error MailError w4"
    unfolding checkForNewReferrals_def by (simp add: assms(1,2) loop Let_def)
  have w4: "w4 = snd (Some MailError,
      w3\<lparr>clock := clock w3 + int (lookup_ms ev),
        next_id := next_id w3 + 2,
        referrals := referrals w3 @ [api_doc (next_id w3) (clock w3 + int (lookup_ms ev)) r],
        notifications := notifications w3
           @ [api_notification (Suc (next_id w3)) (next_id w3) (clock w3 + int (lookup_ms ev)) r],
        trace := trace w3
           @ [FindOneByRequestOn (memberID r) (requestOn r),
              ReferralCreate (api_doc (next_id w3) (clock w3 + int (lookup_ms ev)) r),
              NotificationCreate
                (api_notification (Suc (next_id w3)) (next_id w3) (clock w3 + int (lookup_ms ev)) r),
              SendMail (or_else (EMAIL_FROM cfg) ''adeoyeoluwaferanmi@gmail.com'')
                (join '','' (email_recipients cfg)) ''New Referral Notification'' (email_text r),
              ConsoleError ''Error sending email notification:'']\<rparr>)"
    unfolding w4_def step ..
  show ?thesis
    unfolding cy by (simp add: w4 on_error_def Let_def l3 api_doc_def)
qed

theorem mail_failure_aborts_cycle_witness:
  "loginToAvaility cfg_example ev_mail_down w_start = (Inr True, w_logged_in)
   \<and> fetchReferrals ev_mail_down w_logged_in = (Inr [ann], w_fetched)
   \<and> newReferrals cfg_example (lastCheckTime w_start) [ann] = [] @ ann # []
   \<and> processNewReferrals cfg_example ev_mail_down [] w_fetched = (None, w_fetched)
   \<and> findOneByRequestOn (referrals w_fetched) (memberID ann) (requestOn ann) = None
   \<and> memberName ann \<noteq> [] \<and> memberID ann \<noteq> []
   \<and> email_recipients cfg_example \<noteq> []
   \<and> \<not> sendMail_ok ev_mail_down (mail_calls (trace w_fetched))
   \<and> fst (checkForNewReferrals cfg_example ev_mail_down w_start) = Some MailError
   \<and> lastCheckTime (snd (checkForNewReferrals cfg_example ev_mail_down w_start))
       = lastCheckTime w_start
   \<and> sms_calls (trace (snd (checkForNewReferrals cfg_example ev_mail_down w_start)))
       = sms_calls (trace w_fetched)"
proof -
  have "fst (loginToAvaility cfg_example ev_mail_down w_start) = Inr True"
    by code_simp
  then have h1: "loginToAvaility cfg_example ev_mail_down w_start = (Inr True, w_logged_in)"
    unfolding w_logged_in_def by (metis prod.collapse)
  have "fst (fetchReferrals ev_mail_down w_logged_in) = Inr [ann]"
    by code_simp
  then have h2: "fetchReferrals ev_mail_down w_logged_in = (Inr [ann], w_fetched)"
    unfolding w_fetched_def by (metis prod.collapse)
  have h3: "newReferrals cfg_example (lastCheckTime w_start) [ann] = [] @ ann # []"
    by (simp add: newReferrals_def cfg_example_def ann_def w_start_def)
  have h4: "processNewReferrals cfg_example ev_mail_down [] w_fetched = (None, w_fetched)"
    by simp
  have h5: "findOneByRequestOn (referrals w_fetched) (memberID ann) (requestOn ann) = None"
    by code_simp
  have h6: "memberName ann \<noteq> []" and h7: "memberID ann \<noteq> []"
    by (simp_all add: ann_def)
  have h8: "email_recipients cfg_example \<noteq> []"
    by (simp add: email_recipients_def cfg_example_def)
  have h9: "\<not> sendMail_ok ev_mail_down (mail_calls (trace w_fetched))"
    by (simp add: ev_mail_down_def)
  from mail_failure_aborts_cycle [OF h1 h2 h3 h4 h5 h6 h7 h8 h9] h1 h2 h3 h4 h5 h6 h7 h8 h9
  show ?thesis by simp
qed

text \<open>
  Claim C3 as stated fails: with both channels set up, the mail transport refusing and
  the SMS transport ready to deliver, the cycle ends with the mail error, the stored
  record keeps \<^verbatim>\<open>isNotified\<close> false, no SMS is sent and the watermark stays.
\<close>

theorem mail_failure_counterexample:
  "fst (checkForNewReferrals cfg_example ev_mail_down w_start) = Some MailError
   \<and> map isNotified (referrals (snd (checkForNewReferrals cfg_example ev_mail_down w_start))) = [False]
   \<and> length (notifications (snd (checkForNewReferrals cfg_example ev_mail_down w_start))) = 1
   \<and> create_ok ev_mail_down 0
   \<and> sms_calls (trace (snd (checkForNewReferrals cfg_example ev_mail_down w_start))) = 0
   \<and> lastCheckTime (snd (checkForNewReferrals cfg_example ev_mail_down w_start))
       = lastCheckTime w_start"
  by code_simp

section \<open>The key of the page path\<close>

lemma findOneByName_None:
  "findOneByName ds m n = None \<longleftrightarrow> \<not> (\<exists>d\<in>set ds. doc_memberID d = m \<and> doc_memberName d = n)"
  by (auto simp: findOneByName_def find_None_iff)

lemma saveMember_referrals:
  "referrals (snd (saveMember cfg ev m w)) =
     (case findOneByName (referrals w) (md_memberID m) (md_memberName m) of
        Some d \<Rightarrow> referrals w
      | None \<Rightarrow> referrals w @ [member_doc cfg (next_id w) (clock w) m])"
proof (cases "findOneByName (referrals w) (md_memberID m) (md_memberName m)")
  case (Some d)
  then show ?thesis by (simp add: saveMember_def Let_def)
next
  case None
  let ?w0 = "emit (FindOneByName (md_memberID m) (md_memberName m)) w"
  let ?d = "member_doc cfg (next_id ?w0) (clock ?w0) m"
  let ?w1 = "createReferral ?d ?w0"
  obtain r2 w2 where c: "createNotification
      (member_notification (next_id ?w1) (doc_id ?d) (clock ?w1) m) ?w1 = (r2, w2)"
    by (cases "createNotification (member_notification (next_id ?w1) (doc_id ?d) (clock ?w1) m) ?w1")
      blast
  have f2: "referrals w2 = referrals w @ [member_doc cfg (next_id w) (clock w) m]"
    using c by (auto simp: createNotification_def createReferral_def split: if_splits)
  show ?thesis
  proof (cases r2)
    case (Some e)
    with None c f2 show ?thesis by (simp add: saveMember_def Let_def)
  next
    case r2: None
    obtain b where b: "saveMember cfg ev m w = sendSMS cfg ev b w2"
      using None c r2 by (simp add: saveMember_def Let_def)
    obtain r3 w3 where t: "sendSMS cfg ev b w2 = (r3, w3)" by (cases "sendSMS cfg ev b w2") blast
    from only_logs_fields(4) [OF sendSMS_only_logs [OF t]] b t f2 None show ?thesis by simp
  qed
qed

text \<open>
  Claim C4, as the code has it. The page path looks a scraped member up by
  (memberID, memberName): it stores nothing when a stored record has that id and that
  name, whatever its \<^verbatim>\<open>requestOn\<close>, and otherwise stores a record whose \<^verbatim>\<open>requestOn\<close> is
  the scraped request date or, when there is none, the current time. The request path
  looks a candidate up by (memberID, requestOn). So each path recognises a record of the
  other only when the fields of its own lookup agree.
\<close>

theorem page_path_upserts_by_name:
  "referrals (snd (saveMember cfg ev m w))
     = (if \<exists>d\<in>set (referrals w). doc_memberID d = md_memberID m \<and> doc_memberName d = md_memberName m
        then referrals w
        else referrals w @ [member_doc cfg (next_id w) (clock w) m])
   \<and> doc_key (member_doc cfg (next_id w) (clock w) m)
       = (md_memberID m, or_else (md_requestDate m) (toISOString cfg (clock w)))
   \<and> map doc_key (referrals (snd (processReferral cfg ev r w)))
       = (if \<exists>d\<in>set (referrals w). doc_memberID d = memberID r \<and> doc_requestOn d = requestOn r
          then map doc_key (referrals w)
          else map doc_key (referrals w) @ [ref_key r])"
proof (intro conjI)
  show "referrals (snd (saveMember cfg ev m w))
     = (if \<exists>d\<in>set (referrals w). doc_memberID d = md_memberID m \<and> doc_memberName d = md_memberName m
        then referrals w
        else referrals w @ [member_doc cfg (next_id w) (clock w) m])"
    using findOneByName_None [of "referrals w" "md_memberID m" "md_memberName m"]
    by (auto simp: saveMember_referrals split: option.splits)
  show "doc_key (member_doc cfg (next_id w) (clock w) m)
       = (md_memberID m, or_else (md_requestDate m) (toISOString cfg (clock w)))"
    by (simp add: doc_key_def member_doc_def)
  obtain p w' where pr: "processReferral cfg ev r w = (p, w')"
    by (cases "processReferral cfg ev r w") blast
  have "findOneByRequestOn (referrals w) (memberID r) (requestOn r) = None
      \<longleftrightarrow> \<not> (\<exists>d\<in>set (referrals w). doc_memberID d = memberID r \<and> doc_requestOn d = requestOn r)"
    by (auto simp: findOneByRequestOn_def find_None_iff)
  with processReferral_frame(7) [OF pr] pr
  show "map doc_key (referrals (snd (processReferral cfg ev r w)))
       = (if \<exists>d\<in>set (referrals w). doc_memberID d = memberID r \<and> doc_requestOn d = requestOn r
          then map doc_key (referrals w)
          else map doc_key (referrals w) @ [ref_key r])"
    by (auto simp: ref_key_def split: option.splits)
qed

theorem page_path_upserts_by_name_witness:
  "\<not> (\<exists>d\<in>set (referrals w_ann).
          doc_memberID d = md_memberID ann_listed \<and> doc_memberName d = md_memberName ann_listed)
   \<and> referrals (snd (saveMember cfg_example ev_example ann_listed w_ann))
       = referrals w_ann @ [member_doc cfg_example (next_id w_ann) (clock w_ann) ann_listed]
   \<and> (\<exists>d\<in>set (referrals w_ann). doc_memberID d = memberID ann \<and> doc_requestOn d = requestOn ann)
   \<and> map doc_key (referrals (snd (processReferral cfg_example ev_example ann w_ann)))
       = map doc_key (referrals w_ann)"
proof -
  have h1: "\<not> (\<exists>d\<in>set (referrals w_ann).
          doc_memberID d = md_memberID ann_listed \<and> doc_memberName d = md_memberName ann_listed)"
    by code_simp
  have h2: "\<exists>d\<in>set (referrals w_ann). doc_memberID d = memberID ann \<and> doc_requestOn d = requestOn ann"
    by code_simp
  from page_path_upserts_by_name
    [where w = w_ann and m = ann_listed and r = ann and cfg = cfg_example and ev = ev_example]
    h1 h2
  show ?thesis by simp
qed

text \<open>
  Claim C4 as stated fails: the record of \<open>ann\<close>, stored by the request path, is not
  recognised by the page path when the page lists the same member id and request date
  under a differently written name; the natural key is then stored twice.
\<close>

theorem page_path_misses_stored_record_counterexample:
  "findOneByRequestOn (referrals w_ann) (md_memberID ann_listed) ''2024-01-01T00:00:00Z'' \<noteq> None
   \<and> md_requestDate ann_listed = Some ''2024-01-01T00:00:00Z''
   \<and> key_count (ref_key ann) (referrals w_ann) = 1
   \<and> key_count (ref_key ann)
        (referrals (snd (saveMember cfg_example ev_example ann_listed w_ann))) = 2"
  by code_simp

section \<open>A request the portal refuses\<close>

lemma login_from_closed:
  assumes "browser v = None"
  shows "launch ev = None \<Longrightarrow>
      loginToAvaility cfg ev v
        = (Inl SetupError,
           emit (ConsoleError ''Error during login attempt:'')
             (emit (ConsoleError ''Error setting up bot:'') (emit Launch v)))"
    and "launch ev = Some b \<Longrightarrow> newPage ev = Some p \<Longrightarrow> portal_login ev \<Longrightarrow>
      loginToAvaility cfg ev v
        = (Inr True,
           extractMemberInformation cfg ev
             ((emit PortalLogin ((emit NewPage ((emit Launch v)\<lparr>browser := Some b\<rparr>))
                                   \<lparr>page := Some p\<rparr>))
                \<lparr>clock := clock v + int (login_ms ev)\<rparr>))"
    and "launch ev = Some b \<Longrightarrow> newPage ev = Some p \<Longrightarrow> \<not> portal_login ev \<Longrightarrow>
      loginToAvaility cfg ev v
        = (Inl LoginError,
           emit (ConsoleError ''Error during login attempt:'')
             ((emit PortalLogin ((emit NewPage ((emit Launch v)\<lparr>browser := Some b\<rparr>))
                                   \<lparr>page := Some p\<rparr>))
                \<lparr>clock := clock v + int (login_ms ev)\<rparr>))"
  using assms by (simp_all add: loginToAvaility_def setupBot_def Let_def)

lemma cycle_trace_prefix:
  "prefix (trace (snd (loginToAvaility cfg ev w))) (trace (snd (checkForNewReferrals cfg ev w)))"
proof (cases rule: cycle_cases [of cfg ev w])
  case (login_failed e w1)
  with on_error_fields(6) [of w1 e] show ?thesis by simp
next
  case (fetch_failed w1 e w2)
  with fetchReferrals_fields(6) [OF fetch_failed(2)] on_error_fields(6) [of w2 e]
  show ?thesis by (auto intro: prefix_order.trans)
next
  case (persist_failed w1 rs w2 e w3)
  have "prefix (trace w1) (trace w3)"
    using fetchReferrals_fields(6) [OF persist_failed(2)]
      processNewReferrals_frame [OF persist_failed(3)]
    by (auto intro: prefix_order.trans)
  with persist_failed(1,4) on_error_fields(6) [of w3 e] show ?thesis
    by (auto intro: prefix_order.trans)
next
  case (completed w1 rs w2 w3)
  have "prefix (trace w1) (trace w3)"
    using fetchReferrals_fields(6) [OF completed(2)]
      processNewReferrals_frame [OF completed(3)]
    by (auto intro: prefix_order.trans)
  with completed(1,4) show ?thesis by simp
qed

lemma cycle_login_failed:
  "fst (loginToAvaility cfg ev w) = Inl e \<Longrightarrow>
   checkForNewReferrals cfg ev w = on_error e (snd (loginToAvaility cfg ev w))"
  by (cases "loginToAvaility cfg ev w") (simp add: checkForNewReferrals_def)

text \<open>
  Claim C5. In a cycle whose login completed and whose request is answered with status
  401 or 403: the cycle ends with that error; \<^verbatim>\<open>browser\<close> and \<^verbatim>\<open>page\<close> are closed and
  cleared; the watermark is the one the cycle started with; the request path stored
  nothing; after the login the cycle made exactly one request, logged the error and
  closed the browser (no second request, no second login). The next cycle starts from the
  closed session: whatever the outside answers, its login begins by launching a browser.
  When the launch and the new page succeed and the portal login completes, the login is
  exactly: launch, new page, the login on the portal, then the page scrape, and the
  session variables hold the new browser and page; the trace of the whole next cycle
  begins with these three calls. When the portal login throws, or the launch fails, the
  next cycle ends with that error (and after a failed launch \<^verbatim>\<open>browser\<close> is still empty).
\<close>

theorem auth_error_closes_session:
  assumes "loginToAvaility cfg ev w = (Inr True, w1)"
    and "axios_post ev = HttpError st" and "st = 401 \<or> st = 403"
  shows "fst (checkForNewReferrals cfg ev w) = Some (AxiosError (Some st))
    \<and> browser (snd (checkForNewReferrals cfg ev w)) = None
    \<and> page (snd (checkForNewReferrals cfg ev w)) = None
    \<and> lastCheckTime (snd (checkForNewReferrals cfg ev w)) = lastCheckTime w
    \<and> referrals (snd (checkForNewReferrals cfg ev w)) = referrals w1
    \<and> trace (snd (checkForNewReferrals cfg ev w))
        = trace w1 @ [AxiosPost (cookie_string (cookie_jar ev))
                        (extractXsrfToken (cookie_string (cookie_jar ev))),
                      ConsoleError ''Error checking for new referrals:'', BrowserClose]
    \<and> (\<forall>ev2. \<exists>tr. trace (snd (loginToAvaility cfg ev2 (snd (checkForNewReferrals cfg ev w))))
          = trace (snd (checkForNewReferrals cfg ev w)) @ Launch # tr)
    \<and> (\<forall>ev2 b p. launch ev2 = Some b \<and> newPage ev2 = Some p \<and> portal_login ev2 \<longrightarrow>
          loginToAvaility cfg ev2 (snd (checkForNewReferrals cfg ev w))
            = (Inr True,
               extractMemberInformation cfg ev2
                 ((emit PortalLogin
                     ((emit NewPage
                         ((emit Launch (snd (checkForNewReferrals cfg ev w)))\<lparr>browser := Some b\<rparr>))
                        \<lparr>page := Some p\<rparr>))
                    \<lparr>clock := clock (snd (checkForNewReferrals cfg ev w)) + int (login_ms ev2)\<rparr>))
          \<and> fst (loginToAvaility cfg ev2 (snd (checkForNewReferrals cfg ev w))) = Inr True
          \<and> browser (snd (loginToAvaility cfg ev2 (snd (checkForNewReferrals cfg ev w)))) = Some b
          \<and> page (snd (loginToAvaility cfg ev2 (snd (checkForNewReferrals cfg ev w)))) = Some p
          \<and> (\<exists>tr. trace (snd (checkForNewReferrals cfg ev2 (snd (checkForNewReferrals cfg ev w))))
                = trace (snd (checkForNewReferrals cfg ev w)) @ [Launch, NewPage, PortalLogin] @ tr))
    \<and> (\<forall>ev2 b p. launch ev2 = Some b \<and> newPage ev2 = Some p \<and> \<not> portal_login ev2 \<longrightarrow>
          fst (checkForNewReferrals cfg ev2 (snd (checkForNewReferrals cfg ev w))) = Some LoginError)
    \<and> (\<forall>ev2. launch ev2 = None \<longrightarrow>
          fst (checkForNewReferrals cfg ev2 (snd (checkForNewReferrals cfg ev w))) = Some SetupError
          \<and> browser (snd (checkForNewReferrals cfg ev2 (snd (checkForNewReferrals cfg ev w)))) = None)"
proof -
  let ?c = "cookie_string (cookie_jar ev)"
  let ?w2 = "(emit (AxiosPost ?c (extractXsrfToken ?c)) w1)\<lparr>clock := clock w1 + int (fetch_ms ev)\<rparr>"
  let ?w' = "(emit BrowserClose (emit (ConsoleError ''Error checking for new referrals:'') ?w2))
               \<lparr>browser := None, page := None\<rparr>"
  define W where "W = snd (checkForNewReferrals cfg ev w)"
  have pg: "page w1 \<noteq> None" "browser w1 \<noteq> None" using login_ok [OF assms(1)] by simp_all
  have ft: "fetchReferrals ev w1 = (Inl (AxiosError (Some st)), ?w2)"
    using pg assms(2) by (simp add: fetchReferrals_page)
  have cy: "checkForNewReferrals cfg ev w = (Some (AxiosError (Some st)), ?w')"
    using assms(1,3) ft pg
    by (auto simp: checkForNewReferrals_def on_error_def closeBrowser_def Let_def)
  have lct: "lastCheckTime w1 = lastCheckTime w" using login_grows(1) [OF assms(1)] .
  have W: "W = ?w'" unfolding W_def cy by simp
  have closed: "browser W = None" unfolding W by simp
  have first: "fst (checkForNewReferrals cfg ev w) = Some (AxiosError (Some st))
    \<and> browser W = None \<and> page W = None \<and> lastCheckTime W = lastCheckTime w
    \<and> referrals W = referrals w1
    \<and> trace W = trace w1 @ [AxiosPost ?c (extractXsrfToken ?c),
                      ConsoleError ''Error checking for new referrals:'', BrowserClose]"
    unfolding W using lct by (simp add: cy)
  have nxt: "\<exists>tr. trace (snd (loginToAvaility cfg ev2 W)) = trace W @ Launch # tr" for ev2
  proof -
    obtain r0 w0 where s: "setupBot ev2 W = (r0, w0)" by (cases "setupBot ev2 W") blast
    from setupBot_fields(7) [OF s] obtain tr where tr: "trace w0 = trace W @ Launch # tr" by blast
    let ?v1 = "(emit PortalLogin w0)\<lparr>clock := clock w0 + int (login_ms ev2)\<rparr>"
    from page_path_fields(5) [OF extractMemberInformation_page_path [of ?v1 cfg ev2]]
    obtain zs where "trace (extractMemberInformation cfg ev2 ?v1) = (trace w0 @ [PortalLogin]) @ zs"
      by (auto simp: prefix_def)
    with tr s closed show ?thesis
      by (auto simp: loginToAvaility_def Let_def split: option.splits)
  qed
  have re: "loginToAvaility cfg ev2 W
            = (Inr True,
               extractMemberInformation cfg ev2
                 ((emit PortalLogin ((emit NewPage ((emit Launch W)\<lparr>browser := Some b\<rparr>))
                                       \<lparr>page := Some p\<rparr>))
                    \<lparr>clock := clock W + int (login_ms ev2)\<rparr>))
      \<and> fst (loginToAvaility cfg ev2 W) = Inr True
      \<and> browser (snd (loginToAvaility cfg ev2 W)) = Some b
      \<and> page (snd (loginToAvaility cfg ev2 W)) = Some p
      \<and> (\<exists>tr. trace (snd (checkForNewReferrals cfg ev2 W)) = trace W @ [Launch, NewPage, PortalLogin] @ tr)"
    if h: "launch ev2 = Some b \<and> newPage ev2 = Some p \<and> portal_login ev2" for ev2 b p
  proof -
    let ?v1 = "(emit PortalLogin ((emit NewPage ((emit Launch W)\<lparr>browser := Some b\<rparr>))
                                       \<lparr>page := Some p\<rparr>))
                    \<lparr>clock := clock W + int (login_ms ev2)\<rparr>"
    have eq: "loginToAvaility cfg ev2 W = (Inr True, extractMemberInformation cfg ev2 ?v1)"
      using h by (intro login_from_closed(2) [OF closed]) simp_all
    note pp = page_path_fields [OF extractMemberInformation_page_path [of ?v1 cfg ev2]]
    from pp(5) obtain zs where zs: "trace (extractMemberInformation cfg ev2 ?v1)
        = trace W @ [Launch, NewPage, PortalLogin] @ zs"
      by (auto simp: prefix_def)
    from cycle_trace_prefix [of cfg ev2 W] obtain ys where
      "trace (snd (checkForNewReferrals cfg ev2 W)) = trace (extractMemberInformation cfg ev2 ?v1) @ ys"
      unfolding eq by (auto simp: prefix_def)
    with zs have "trace (snd (checkForNewReferrals cfg ev2 W))
        = trace W @ [Launch, NewPage, PortalLogin] @ (zs @ ys)"
      by simp
    then have "\<exists>tr. trace (snd (checkForNewReferrals cfg ev2 W))
        = trace W @ [Launch, NewPage, PortalLogin] @ tr" ..
    with eq pp(1,2) show ?thesis by simp
  qed
  have bad: "fst (checkForNewReferrals cfg ev2 W) = Some LoginError"
    if h: "launch ev2 = Some b \<and> newPage ev2 = Some p \<and> \<not> portal_login ev2" for ev2 b p
  proof -
    have "fst (loginToAvaility cfg ev2 W) = Inl LoginError"
      using h login_from_closed(3) [OF closed, of ev2 b p cfg] by simp
    from cycle_login_failed [OF this] show ?thesis by (simp add: on_error_fields)
  qed
  have none: "fst (checkForNewReferrals cfg ev2 W) = Some SetupError
      \<and> browser (snd (checkForNewReferrals cfg ev2 W)) = None"
    if h: "launch ev2 = None" for ev2
  proof -
    have eq: "loginToAvaility cfg ev2 W
        = (Inl SetupError,
           emit (ConsoleError ''Error during login attempt:'')
             (emit (ConsoleError ''Error setting up bot:'') (emit Launch W)))"
      using h by (rule login_from_closed(1) [OF closed])
    then have "fst (loginToAvaility cfg ev2 W) = Inl SetupError" by simp
    from cycle_login_failed [OF this] eq closed show ?thesis
      by (simp add: on_error_def Let_def)
  qed
  show ?thesis
    using first nxt re bad none unfolding W_def by blast
qed

theorem auth_error_closes_session_witness:
  "loginToAvaility cfg_example ev_403 w_start
     = (Inr True, snd (loginToAvaility cfg_example ev_403 w_start))
   \<and> axios_post ev_403 = HttpError 403
   \<and> launch ev_example = Some 1 \<and> newPage ev_example = Some 2 \<and> portal_login ev_example
   \<and> fst (checkForNewReferrals cfg_example ev_403 w_start) = Some (AxiosError (Some 403))
   \<and> browser (snd (checkForNewReferrals cfg_example ev_403 w_start)) = None
   \<and> page (snd (checkForNewReferrals cfg_example ev_403 w_start)) = None
   \<and> lastCheckTime (snd (checkForNewReferrals cfg_example ev_403 w_start)) = lastCheckTime w_start
   \<and> fst (loginToAvaility cfg_example ev_example
            (snd (checkForNewReferrals cfg_example ev_403 w_start))) = Inr True
   \<and> browser (snd (loginToAvaility cfg_example ev_example
                (snd (checkForNewReferrals cfg_example ev_403 w_start)))) = Some 1
   \<and> page (snd (loginToAvaility cfg_example ev_example
             (snd (checkForNewReferrals cfg_example ev_403 w_start)))) = Some 2
   \<and> (\<exists>tr. trace (snd (checkForNewReferrals cfg_example ev_example
                        (snd (checkForNewReferrals cfg_example ev_403 w_start))))
          = trace (snd (checkForNewReferrals cfg_example ev_403 w_start))
            @ [Launch, NewPage, PortalLogin] @ tr)"
proof -
  have "fst (loginToAvaility cfg_example ev_403 w_start) = Inr True"
    by code_simp
  then have h1: "loginToAvaility cfg_example ev_403 w_start
      = (Inr True, snd (loginToAvaility cfg_example ev_403 w_start))"
    by (metis prod.collapse)
  have h2: "axios_post ev_403 = HttpError 403"
    by (simp add: ev_403_def)
  have h3: "launch ev_example = Some 1 \<and> newPage ev_example = Some 2 \<and> portal_login ev_example"
    by (simp add: ev_example_def)
  have h0: "(403::nat) = 401 \<or> (403::nat) = 403"
    by simp
  note t = auth_error_closes_session [OF h1 h2 h0]
  note nx = t [THEN conjunct2, THEN conjunct2, THEN conjunct2, THEN conjunct2, THEN conjunct2,
      THEN conjunct2, THEN conjunct2, THEN conjunct1, rule_format, of ev_example 1 2, OF h3]
  from t have "fst (checkForNewReferrals cfg_example ev_403 w_start) = Some (AxiosError (Some 403))
    \<and> browser (snd (checkForNewReferrals cfg_example ev_403 w_start)) = None
    \<and> page (snd (checkForNewReferrals cfg_example ev_403 w_start)) = None
    \<and> lastCheckTime (snd (checkForNewReferrals cfg_example ev_403 w_start)) = lastCheckTime w_start"
    by simp
  with nx [THEN conjunct2] h1 h2 h3 show ?thesis by blast
qed

section \<open>One stored record per natural key\<close>

lemma cycle_distinct:
  assumes "distinct (map doc_key (referrals (snd (loginToAvaility cfg ev w))))"
  shows "distinct (map doc_key (referrals (snd (checkForNewReferrals cfg ev w))))"
proof (cases rule: cycle_cases [of cfg ev w])
  case (login_failed e w1)
  with assms show ?thesis by (simp add: on_error_fields)
next
  case (fetch_failed w1 e w2)
  with assms fetchReferrals_fields(3) [OF fetch_failed(2)]
  show ?thesis by (simp add: on_error_fields)
next
  case (persist_failed w1 rs w2 e w3)
  have "distinct (map doc_key (referrals w2))"
    using assms persist_failed(1) fetchReferrals_fields(3) [OF persist_failed(2)] by simp
  with processNewReferrals_frame [OF persist_failed(3)]
  have "distinct (map doc_key (referrals w3))" by blast
  with persist_failed(4) show ?thesis by (simp add: on_error_fields)
next
  case (completed w1 rs w2 w3)
  have "distinct (map doc_key (referrals w2))"
    using assms completed(1) fetchReferrals_fields(3) [OF completed(2)] by simp
  with processNewReferrals_frame [OF completed(3)]
  have "distinct (map doc_key (referrals w3))" by blast
  with completed(4) show ?thesis by simp
qed

lemma distinct_key_count: "distinct (map doc_key ds) \<Longrightarrow> key_count k ds \<le> 1"
  by (induction ds) (auto simp: key_count_def filter_empty_conv image_iff)

text \<open>
  Two cases in which the page path keeps the keys apart: the scrape finds no member, or
  every member it finds is stored already under its (memberID, memberName).
\<close>

lemma saveMembers_known:
  "\<forall>m\<in>set ms. findOneByName (referrals w) (md_memberID m) (md_memberName m) \<noteq> None \<Longrightarrow>
   fst (saveMembers cfg ev ms w) = None \<and> referrals (snd (saveMembers cfg ev ms w)) = referrals w"
proof (induction ms arbitrary: w)
  case Nil
  then show ?case by simp
next
  case (Cons m ms)
  let ?w0 = "emit (FindOneByName (md_memberID m) (md_memberName m)) w"
  have s: "saveMember cfg ev m w = (None, ?w0)"
    using Cons.prems by (auto simp: saveMember_def Let_def)
  have "\<forall>m\<in>set ms. findOneByName (referrals ?w0) (md_memberID m) (md_memberName m) \<noteq> None"
    using Cons.prems by simp
  from Cons.IH [OF this] s show ?case by simp
qed

lemma login_referrals:
  assumes "\<And>v. referrals v = referrals w \<Longrightarrow> referrals (extractMemberInformation cfg ev v) = referrals w"
  shows "referrals (snd (loginToAvaility cfg ev w)) = referrals w"
proof -
  obtain r0 w0 where s: "(if browser w = None \<or> page w = None then setupBot ev w else (None, w)) = (r0, w0)"
    by (cases "if browser w = None \<or> page w = None then setupBot ev w else (None, w)") blast
  have f0: "referrals w0 = referrals w"
    using s setupBot_fields(3) [of ev w r0 w0] by (auto split: if_splits)
  let ?w1 = "(emit PortalLogin w0)\<lparr>clock := clock w0 + int (login_ms ev)\<rparr>"
  have "referrals (extractMemberInformation cfg ev ?w1) = referrals w"
    using f0 by (intro assms) simp
  then show ?thesis
    using s f0 unfolding loginToAvaility_def Let_def
    by (auto split: option.splits if_splits)
qed

lemma scrape_nothing_keeps_keys:
  "extracted ev = None \<or> extracted ev = Some [] \<Longrightarrow> scrape_keeps_keys cfg ev w"
  unfolding scrape_keeps_keys_def
  using login_referrals [of w cfg ev] only_logs_fields(4) [OF extract_nothing_only_logs]
  by (metis (no_types, lifting))

lemma scrape_known_keeps_keys:
  assumes "extracted ev = Some ms"
    and "\<forall>m\<in>set ms. findOneByName (referrals w) (md_memberID m) (md_memberName m) \<noteq> None"
  shows "scrape_keeps_keys cfg ev w"
proof -
  have "referrals (extractMemberInformation cfg ev v) = referrals w" if v: "referrals v = referrals w" for v
  proof -
    let ?v1 = "if length ms > 0 then sendMemberInformationEmail cfg ev ms v else v"
    have r1: "referrals ?v1 = referrals w"
      using v only_logs_fields(4) [OF sendMemberInformationEmail_only_logs [of v cfg ev ms]] by simp
    then have "\<forall>m\<in>set ms. findOneByName (referrals ?v1) (md_memberID m) (md_memberName m) \<noteq> None"
      using assms(2) by simp
    from saveMembers_known [OF this, of cfg ev] r1
    have "referrals (saveMembersToDatabase cfg ev ms ?v1) = referrals w"
      by (cases "saveMembers cfg ev ms ?v1") (simp add: saveMembersToDatabase_def)
    then show ?thesis using assms(1) by (simp add: extractMemberInformation_def)
  qed
  from login_referrals [of w cfg ev, OF this] show ?thesis
    by (simp add: scrape_keeps_keys_def)
qed

text \<open>
  Claim C1, as the code has it. Take two polling cycles, one after the other, in each of
  which the page path that the login runs keeps the natural keys apart (it stores no
  record whose key (memberID, requestOn) is stored already). Then, whatever the two
  requests return and whichever step fails, no natural key is stored twice after both
  cycles if none was before the first: the request path stores a candidate only after
  looking its key up and finding nothing. (The page path stores by another key and can
  store a key twice; see the counterexample.)
\<close>

theorem request_path_keeps_keys_unique:
  assumes "distinct (map doc_key (referrals w))"
    and "scrape_keeps_keys cfg ev1 w"
    and "scrape_keeps_keys cfg ev2 (snd (checkForNewReferrals cfg ev1 w))"
  shows "key_count k (referrals (run_cycles cfg [ev1, ev2] w)) \<le> 1"
proof -
  have "distinct (map doc_key (referrals (snd (loginToAvaility cfg ev1 w))))"
    using assms(1,2) by (simp add: scrape_keeps_keys_def)
  then have d1: "distinct (map doc_key (referrals (snd (checkForNewReferrals cfg ev1 w))))"
    by (rule cycle_distinct)
  with assms(3) have "distinct (map doc_key (referrals (snd (loginToAvaility cfg ev2
      (snd (checkForNewReferrals cfg ev1 w))))))"
    by (simp add: scrape_keeps_keys_def)
  then have "distinct (map doc_key (referrals (snd (checkForNewReferrals cfg ev2
      (snd (checkForNewReferrals cfg ev1 w))))))"
    by (rule cycle_distinct)
  then have "key_count k (referrals (snd (checkForNewReferrals cfg ev2
      (snd (checkForNewReferrals cfg ev1 w))))) \<le> 1"
    by (rule distinct_key_count)
  then show ?thesis by simp
qed

theorem request_path_keeps_keys_unique_witness:
  "distinct (map doc_key (referrals w_start))
   \<and> scrape_keeps_keys cfg_example ev_listing w_start
   \<and> scrape_keeps_keys cfg_example ev_listing
        (snd (checkForNewReferrals cfg_example ev_listing w_start))
   \<and> extracted ev_listing = Some [bob_listed]
   \<and> length (referrals (run_cycles cfg_example [ev_listing, ev_listing] w_start)) = 2
   \<and> key_count (ref_key ann)
        (referrals (run_cycles cfg_example [ev_listing, ev_listing] w_start)) \<le> 1"
proof -
  have h1: "distinct (map doc_key (referrals w_start))"
    by (simp add: w_start_def)
  have h2: "scrape_keeps_keys cfg_example ev_listing w_start"
    by code_simp
  have h3: "scrape_keeps_keys cfg_example ev_listing
        (snd (checkForNewReferrals cfg_example ev_listing w_start))"
    by code_simp
  have e: "extracted ev_listing = Some [bob_listed]"
    by (simp add: ev_listing_def)
  have n: "length (referrals (run_cycles cfg_example [ev_listing, ev_listing] w_start)) = 2"
    by code_simp
  from request_path_keeps_keys_unique [OF h1 h2 h3, where k = "ref_key ann"] h1 h2 h3 e n
  show ?thesis by simp
qed

text \<open>
  Claim C1 as stated fails. Each cycle's login runs the page scrape and its save, which
  looks a member up by (memberID, memberName). A first cycle that scrapes two listings
  with the same unread referral number and the same request date stores both; after the
  second cycle that key is still stored twice.
\<close>

theorem scrape_stores_key_twice_counterexample:
  "distinct (map doc_key (referrals w_start))
   \<and> key_count (''unknown-1704070004000'', ''01/01/2024'')
        (referrals (run_cycles cfg_example [ev_unnumbered, ev_example] w_start)) = 2"
  by code_simp

section \<open>Which candidates are new\<close>








section \<open>The steps for one new referral\<close>






end
